theory Spec2Isabelle
  imports Complex_Main "HOL-Library.AList" "HOL-Library.Multiset"
begin

section \<open>Engagement Concordance Score: the aggregation engine\<close>

text \<open>
  A shallow embedding of \<^verbatim>\<open>engagement_concordance_score.py\<close>: the class
  \<^verbatim>\<open>EngagementConcordanceScore\<close> with \<^verbatim>\<open>load_models\<close>,
  \<^verbatim>\<open>analyze_tweet_comprehensive\<close>, \<^verbatim>\<open>_assess_overall_risk\<close> and
  \<^verbatim>\<open>_generate_summary\<close>.

  Python floats are binary64 numbers. The arithmetic of the loop is given twice: in
  binary64, where every literal, product, sum and quotient is rounded as the
  interpreter rounds it (\<open>record_outcome64\<close>, \<open>run_models64\<close>,
  \<open>composite_of64\<close>), and in exact real arithmetic (\<open>record_outcome\<close>,
  \<open>run_models\<close>, \<open>composite_of\<close>), the idealisation in which the scenarios
  with decimal scores are stated. Both record the same outcomes; their sums and
  composite scores differ by the rounding. The sort key of the risk factors is the
  binary64 product.
  Python dictionaries keep insertion order, so they are association lists whose
  assignment replaces the value of a present key in place and appends an absent one.
\<close>

subsection \<open>Python values, dictionaries and exceptions\<close>

datatype pyfloat = Finite real | NonFinite

datatype pyval = PyNone | PyBool bool | PyInt int | PyFloat pyfloat | PyStr string

datatype py_error = KeyError string | TypeError

text \<open>\<^verbatim>\<open>d[k]\<close>: raises KeyError on an absent key.\<close>

definition getitem :: "(string \<times> 'v) list \<Rightarrow> string \<Rightarrow> py_error + 'v" where
  "getitem d k = (case map_of d k of None \<Rightarrow> Inl (KeyError k) | Some v \<Rightarrow> Inr v)"

text \<open>\<^verbatim>\<open>d[k] = v\<close>.\<close>

definition setitem :: "('k \<times> 'v) list \<Rightarrow> 'k \<Rightarrow> 'v \<Rightarrow> ('k \<times> 'v) list" where
  "setitem d k v = AList.update k v d"

text \<open>\<^verbatim>\<open>str(e)\<close> of the exceptions that occur: a KeyError prints the repr of its key.\<close>

fun str_of_error :: "py_error \<Rightarrow> string" where
  "str_of_error (KeyError k) = [CHR 39] @ k @ [CHR 39]"
| "str_of_error TypeError = ''unsupported operand''"

text \<open>
  \<^verbatim>\<open>isinstance(v, (int, float))\<close> together with the value read as a float: a bool
  is an int in Python.
\<close>

fun py_number :: "pyval \<Rightarrow> pyfloat option" where
  "py_number (PyBool b) = Some (Finite (if b then 1 else 0))"
| "py_number (PyInt i) = Some (Finite (of_int i))"
| "py_number (PyFloat f) = Some f"
| "py_number PyNone = None"
| "py_number (PyStr s) = None"

text \<open>\<^verbatim>\<open>0 <= score <= 1\<close> on a float: false on nan and on the infinities.\<close>

fun in_unit :: "pyfloat \<Rightarrow> bool" where
  "in_unit (Finite r) = (0 \<le> r \<and> r \<le> 1)"
| "in_unit NonFinite = False"

subsection \<open>Binary64 arithmetic\<close>

text \<open>
  A Python float is an IEEE 754 binary64 number: a finite one is an integer of at most
  53 bits times a power of two between \<open>2 powi (- 1074)\<close> and \<open>2 powi 971\<close>. A
  float literal, and the result of every operation, is the exact value rounded to the
  nearest such number, ties to the even one; a result of magnitude \<open>2 powi 1024\<close> or
  more is an infinity. Signed zeros are not told apart: they compare equal and the code
  never divides by one.
\<close>

text \<open>Rounding to the nearest integer, ties to even.\<close>

definition round_even :: "real \<Rightarrow> int" where
  "round_even y =
    (let f = \<lfloor>y\<rfloor> in
     if y - of_int f < 1/2 then f
     else if y - of_int f > 1/2 then f + 1
     else if even f then f else f + 1)"

text \<open>
  The exponent of the spacing of the binary64 numbers around \<open>x\<close>: the least \<open>k\<close>
  from \<open>- 1074\<close> on with \<open>\<bar>x\<bar> < 2 powi (k + 53)\<close>, and 971 when there is none.
\<close>

fun find_exp :: "nat \<Rightarrow> int \<Rightarrow> real \<Rightarrow> int" where
  "find_exp 0 k a = k"
| "find_exp (Suc n) k a = (if a < 2 powi (k + 53) then k else find_exp n (k + 1) a)"

definition quantum :: "real \<Rightarrow> int" where
  "quantum x = find_exp 2045 (- 1074) \<bar>x\<bar>"

definition rounded :: "real \<Rightarrow> real" where
  "rounded x = of_int (round_even (x / 2 powi quantum x)) * 2 powi quantum x"

datatype b64 = Num real | PosInf | NegInf | NaN

definition huge :: real where
  "huge = 2 powi 1024"

definition round64 :: "real \<Rightarrow> b64" where
  "round64 x =
    (if rounded x \<ge> huge then PosInf
     else if rounded x \<le> - huge then NegInf
     else Num (rounded x))"

text \<open>\<^verbatim>\<open>a + b\<close>, \<^verbatim>\<open>a * b\<close> and \<^verbatim>\<open>a / b\<close> on floats. Division by zero raises.\<close>

fun fadd :: "b64 \<Rightarrow> b64 \<Rightarrow> b64" where
  "fadd (Num a) (Num b) = round64 (a + b)"
| "fadd NaN y = NaN"
| "fadd x NaN = NaN"
| "fadd PosInf NegInf = NaN"
| "fadd NegInf PosInf = NaN"
| "fadd PosInf y = PosInf"
| "fadd x PosInf = PosInf"
| "fadd NegInf y = NegInf"
| "fadd x NegInf = NegInf"

definition signed_inf :: "bool \<Rightarrow> b64" where
  "signed_inf positive = (if positive then PosInf else NegInf)"

fun fmul :: "b64 \<Rightarrow> b64 \<Rightarrow> b64" where
  "fmul (Num a) (Num b) = round64 (a * b)"
| "fmul NaN y = NaN"
| "fmul x NaN = NaN"
| "fmul PosInf (Num b) = (if b = 0 then NaN else signed_inf (0 < b))"
| "fmul NegInf (Num b) = (if b = 0 then NaN else signed_inf (b < 0))"
| "fmul (Num a) PosInf = (if a = 0 then NaN else signed_inf (0 < a))"
| "fmul (Num a) NegInf = (if a = 0 then NaN else signed_inf (a < 0))"
| "fmul PosInf PosInf = PosInf"
| "fmul NegInf NegInf = PosInf"
| "fmul PosInf NegInf = NegInf"
| "fmul NegInf PosInf = NegInf"

datatype arith_error = ZeroDivisionError

fun fdiv :: "b64 \<Rightarrow> b64 \<Rightarrow> arith_error + b64" where
  "fdiv x (Num b) =
     (if b = 0 then Inl ZeroDivisionError
      else Inr (case x of
                  Num a \<Rightarrow> round64 (a / b)
                | PosInf \<Rightarrow> signed_inf (0 < b)
                | NegInf \<Rightarrow> signed_inf (b < 0)
                | NaN \<Rightarrow> NaN))"
| "fdiv (Num a) PosInf = Inr (Num 0)"
| "fdiv (Num a) NegInf = Inr (Num 0)"
| "fdiv x y = Inr NaN"

text \<open>\<^verbatim>\<open>x > 0\<close> on a float.\<close>

fun fgt0 :: "b64 \<Rightarrow> bool" where
  "fgt0 (Num a) = (a > 0)"
| "fgt0 PosInf = True"
| "fgt0 NegInf = False"
| "fgt0 NaN = False"

text \<open>
  The place of a float in the order of the floats, as a real number: the infinities sit
  at \<open>huge\<close> and \<open>- huge\<close>, beyond every finite binary64 number. It is what a
  comparison of two floats compares, as long as neither is a nan.
\<close>

definition ext :: "b64 \<Rightarrow> real" where
  "ext v = (case v of Num r \<Rightarrow> r | PosInf \<Rightarrow> huge | NegInf \<Rightarrow> - huge | NaN \<Rightarrow> 0)"

subsection \<open>The object and its configuration\<close>

text \<open>
  The attributes of \<^verbatim>\<open>self\<close>. An entry of \<^verbatim>\<open>models\<close> is read only through
  \<^verbatim>\<open>info.get('loaded', False)\<close>, so it is kept as that flag.
\<close>

record ecs =
  models :: "(string \<times> bool) list"
  weights :: "(string \<times> real) list"
  model_paths :: "(string \<times> string) list"
  analysis_methods :: "(string \<times> string) list"
  score_keys :: "(string \<times> string) list"

definition init_weights :: "(string \<times> real) list" where
  "init_weights =
    [(''hyperbole_falsehood'', 6/10),
     (''clickbait'', 8/10),
     (''engagement_mismatch'', 1),
     (''content_recycling'', 9/10),
     (''coordinated_network'', 1),
     (''emotive_manipulation'', 6/10),
     (''rapid_engagement_spike'', 5/10),
     (''generic_comment'', 6/10),
     (''authority_signal'', 7/10),
     (''reply_bait'', 8/10)]"

definition init_model_paths :: "(string \<times> string) list" where
  "init_model_paths =
    [(''hyperbole_falsehood'', ''../Hyperbole_Falsehood_detector''),
     (''clickbait'', ''../Clickbait_Headline_Classifier''),
     (''engagement_mismatch'', ''../Engagement_Mismatch_Detector''),
     (''content_recycling'', ''../Content_Recycling_Detector''),
     (''coordinated_network'', ''../Coordinated_Account_Network_Model''),
     (''emotive_manipulation'', ''../Emotive_Manipulation_Detector''),
     (''rapid_engagement_spike'', ''../Rapid_Engagement_Spike_Detector''),
     (''generic_comment'', ''../Generic_Comment_Detector''),
     (''authority_signal'', ''../Authority_Signal_Manipulation''),
     (''reply_bait'', ''../Reply_Bait_Detector'')]"

definition init_analysis_methods :: "(string \<times> string) list" where
  "init_analysis_methods =
    [(''hyperbole_falsehood'', ''simple_score''),
     (''clickbait'', ''simple_score''),
     (''engagement_mismatch'', ''simple_score''),
     (''content_recycling'', ''simple_score''),
     (''coordinated_network'', ''simple_score''),
     (''emotive_manipulation'', ''simple_score''),
     (''rapid_engagement_spike'', ''simple_score''),
     (''generic_comment'', ''simple_score''),
     (''authority_signal'', ''simple_score''),
     (''reply_bait'', ''simple_score'')]"

definition init_score_keys :: "(string \<times> string) list" where
  "init_score_keys =
    [(''hyperbole_falsehood'', ''manipulation_score''),
     (''clickbait'', ''clickbait_score''),
     (''engagement_mismatch'', ''mismatch_score''),
     (''content_recycling'', ''recycling_score''),
     (''coordinated_network'', ''coordination_score''),
     (''emotive_manipulation'', ''manipulation_score''),
     (''rapid_engagement_spike'', ''spike_score''),
     (''generic_comment'', ''generic_content_score''),
     (''authority_signal'', ''authority_score''),
     (''reply_bait'', ''reply_bait_score'')]"

subsection \<open>The outside world\<close>

text \<open>
  What \<^verbatim>\<open>subprocess.run(..., timeout=30)\<close> does: it returns a completed process, raises
  \<^verbatim>\<open>TimeoutExpired\<close>, or raises something else (the interpreter cannot be started, a
  permission error). Of a completed process the code reads the return code and, when
  that is zero, \<^verbatim>\<open>float(result.stdout.strip())\<close>; \<^verbatim>\<open>float\<close> and \<^verbatim>\<open>strip\<close> are
  built-ins, so the process carries what they return on its output: a float, or
  \<^verbatim>\<open>ValueError\<close>.
\<close>

datatype stdout_float = ValueError | Float pyfloat

datatype process = Completed int stdout_float | TimeoutExpired | SpawnFailed

text \<open>
  The file system and the scorers, addressed by a model's directory (its entry in
  \<^verbatim>\<open>model_paths\<close>): whether the directory exists, whether it holds
  \<^verbatim>\<open>simple_score.py\<close>, what running that script on a tweet id does, and the clock.
\<close>

record world =
  dir_exists :: "string \<Rightarrow> bool"
  script_exists :: "string \<Rightarrow> bool"
  run_script :: "string \<Rightarrow> string \<Rightarrow> process"
  now :: string

subsection \<open>\<^verbatim>\<open>__init__\<close> and \<^verbatim>\<open>load_models\<close>\<close>

definition load_model :: "world \<Rightarrow> (string \<times> bool) list \<Rightarrow> string \<times> string \<Rightarrow> (string \<times> bool) list"
  where
  "load_model w ms np =
    (case np of (model_name, model_path) \<Rightarrow>
      if \<not> dir_exists w model_path then setitem ms model_name False
      else if \<not> script_exists w model_path then setitem ms model_name False
      else setitem ms model_name True)"

definition load_models :: "world \<Rightarrow> ecs \<Rightarrow> ecs" where
  "load_models w e = e\<lparr>models := foldl (load_model w) (models e) (model_paths e)\<rparr>"

definition init :: "world \<Rightarrow> ecs" where
  "init w = load_models w
    \<lparr>models = [], weights = init_weights, model_paths = init_model_paths,
     analysis_methods = init_analysis_methods, score_keys = init_score_keys\<rparr>"

subsection \<open>The result of an analysis\<close>

text \<open>
  The dictionaries of the result, one record each. A key that two of them share is
  told apart by its record: a risk factor's \<^verbatim>\<open>score\<close> and \<^verbatim>\<open>weight\<close> are
  \<open>factor_score\<close> and \<open>factor_weight\<close>, and the \<^verbatim>\<open>composite_score\<close> of the
  risk assessment is \<open>assessed_score\<close>. A score that is \<^verbatim>\<open>None\<close> is \<open>None\<close>, a
  numeric one is \<open>Some\<close> of its value.
\<close>

record outcome =
  score :: "real option"
  full_result :: "(string \<times> pyval) list option"
  status :: string
  error :: "string option"

record breakdown =
  raw_score :: real
  weight :: real
  weighted_contribution :: real

record risk_factor =
  model :: string
  factor_score :: real
  factor_weight :: real

record risk_assessment =
  risk_level :: string
  risk_description :: string
  top_risk_factors :: "risk_factor list"
  assessed_score :: real

text \<open>
  \<^verbatim>\<open>models_analyzed\<close> is the pair the source prints as \<^verbatim>\<open>"k/n"\<close>; the summary's
  \<^verbatim>\<open>composite_score\<close>, the score printed with three decimals, is left out.
\<close>

record summary =
  models_analyzed :: "nat \<times> nat"
  summary_risk_level :: string
  recommendations :: "string list"
  analysis_confidence :: string

record results =
  tweet_id :: string
  timestamp :: string
  model_results :: "(string \<times> outcome) list"
  composite_score :: real
  weighted_breakdown :: "(string \<times> breakdown) list"
  risk_assessment :: risk_assessment
  summary :: summary

text \<open>
  What the loop of \<^verbatim>\<open>analyze_tweet_comprehensive\<close> changes: two entries of
  \<^verbatim>\<open>results\<close> and the two running sums.
\<close>

record run_state =
  rs_model_results :: "(string \<times> outcome) list"
  rs_weighted_breakdown :: "(string \<times> breakdown) list"
  total_weight :: real
  weighted_sum :: real

subsection \<open>Running one scorer\<close>

text \<open>
  The value a finished \<^verbatim>\<open>subprocess.run\<close> leaves in \<^verbatim>\<open>model_result\<close>: the parsed
  score when the exit status is zero and the score lies in the unit interval, and
  \<^verbatim>\<open>0.0\<close> after each warning: score out of range, unparsable output, non-zero exit
  status, timeout, any other exception.
\<close>

definition score_of_process :: "process \<Rightarrow> pyfloat" where
  "score_of_process p =
    (case p of
       Completed returncode out \<Rightarrow>
         if returncode = 0 then
           (case out of
              Float f \<Rightarrow> if in_unit f then f else Finite 0
            | ValueError \<Rightarrow> Finite 0)
         else Finite 0
     | TimeoutExpired \<Rightarrow> Finite 0
     | SpawnFailed \<Rightarrow> Finite 0)"

text \<open>
  The first half of the loop body: \<^verbatim>\<open>model_result\<close>. Every branch builds the
  dictionary \<^verbatim>\<open>{self.score_keys[model_name]: v}\<close>, also the two exception handlers, so
  a model without a score key raises KeyError out of all of them, to the outer handler.
  A model without a path raises KeyError inside the inner \<^verbatim>\<open>try\<close>, which its
  \<^verbatim>\<open>except Exception\<close> turns into \<^verbatim>\<open>0.0\<close>.
\<close>

definition get_model_result ::
  "ecs \<Rightarrow> world \<Rightarrow> string \<Rightarrow> string \<Rightarrow> string \<Rightarrow> py_error + (string \<times> pyval) list" where
  "get_model_result e w tweet model_name method_name =
    (case getitem (score_keys e) model_name of
       Inl err \<Rightarrow> Inl err
     | Inr score_key \<Rightarrow>
         Inr [(score_key, PyFloat
           (if method_name = ''simple_score'' then
              (case getitem (model_paths e) model_name of
                 Inl err \<Rightarrow> Finite 0
               | Inr model_path \<Rightarrow>
                   if script_exists w model_path
                   then score_of_process (run_script w model_path tweet)
                   else Finite 0)
            else Finite 0))])"

text \<open>The outer \<^verbatim>\<open>except Exception as e\<close>.\<close>

definition record_error :: "string \<Rightarrow> py_error \<Rightarrow> run_state \<Rightarrow> run_state" where
  "record_error model_name err st =
    st\<lparr>rs_model_results := setitem (rs_model_results st) model_name
      \<lparr>score = None, full_result = None, status = ''error'',
       error = Some (str_of_error err)\<rparr>\<rparr>"

text \<open>
  \<^verbatim>\<open>isinstance(score, (int, float)) and 0 <= score <= 1\<close>, with the number that passes.
\<close>

definition valid_score :: "pyval \<Rightarrow> real option" where
  "valid_score v =
    (case py_number v of
       None \<Rightarrow> None
     | Some f \<Rightarrow> (case f of Finite s \<Rightarrow> if in_unit f then Some s else None
                            | NonFinite \<Rightarrow> None))"

text \<open>
  The second half of the loop body, "Extract the score". The success entry is stored
  before \<^verbatim>\<open>self.weights[model_name]\<close> is read, so a model without a weight ends with
  the error entry written over it, and with neither sum changed. The product and the
  two sums are exact here; \<open>record_outcome64\<close> below rounds them as the interpreter
  does.
\<close>

definition record_outcome ::
  "ecs \<Rightarrow> string \<Rightarrow> (string \<times> pyval) list \<Rightarrow> run_state \<Rightarrow> run_state" where
  "record_outcome e model_name model_result st =
    (case getitem (score_keys e) model_name of
       Inl err \<Rightarrow> record_error model_name err st
     | Inr score_key \<Rightarrow>
        (case map_of model_result score_key of
           None \<Rightarrow>
             st\<lparr>rs_model_results := setitem (rs_model_results st) model_name
               \<lparr>score = None, full_result = Some model_result,
                status = ''score_not_found'', error = None\<rparr>\<rparr>
         | Some v \<Rightarrow>
            (case valid_score v of
               None \<Rightarrow>
                 st\<lparr>rs_model_results := setitem (rs_model_results st) model_name
                   \<lparr>score = None, full_result = Some model_result,
                    status = ''invalid_score'', error = None\<rparr>\<rparr>
             | Some s \<Rightarrow>
                (let st1 = st\<lparr>rs_model_results := setitem (rs_model_results st) model_name
                        \<lparr>score = Some s, full_result = Some model_result,
                         status = ''success'', error = None\<rparr>\<rparr>
                 in case getitem (weights e) model_name of
                      Inl err \<Rightarrow> record_error model_name err st1
                    | Inr wt \<Rightarrow>
                        st1\<lparr>weighted_sum := weighted_sum st1 + s * wt,
                            total_weight := total_weight st1 + wt,
                            rs_weighted_breakdown :=
                              setitem (rs_weighted_breakdown st1) model_name
                                \<lparr>raw_score = s, weight = wt,
                                 weighted_contribution = s * wt\<rparr>\<rparr>))))"

text \<open>One iteration of \<^verbatim>\<open>for model_name, model_info in self.models.items()\<close>.\<close>

definition analyze_model ::
  "ecs \<Rightarrow> world \<Rightarrow> string \<Rightarrow> run_state \<Rightarrow> string \<times> bool \<Rightarrow> run_state" where
  "analyze_model e w tweet st m =
    (case m of (model_name, loaded) \<Rightarrow>
      if \<not> loaded then st
      else
        (case getitem (analysis_methods e) model_name of
           Inl err \<Rightarrow> record_error model_name err st
         | Inr method_name \<Rightarrow>
            (case get_model_result e w tweet model_name method_name of
               Inl err \<Rightarrow> record_error model_name err st
             | Inr model_result \<Rightarrow> record_outcome e model_name model_result st)))"

definition empty_state :: run_state where
  "empty_state =
    \<lparr>rs_model_results = [], rs_weighted_breakdown = [], total_weight = 0, weighted_sum = 0\<rparr>"

definition run_models :: "ecs \<Rightarrow> world \<Rightarrow> string \<Rightarrow> run_state" where
  "run_models e w tweet = foldl (analyze_model e w tweet) empty_state (models e)"

text \<open>
  "Calculate composite score", with the exact quotient; \<open>composite_of64\<close> below is
  the rounded one.
\<close>

definition composite_of :: "run_state \<Rightarrow> real" where
  "composite_of st =
    (if total_weight st > 0 then weighted_sum st / total_weight st else 0)"

subsection \<open>\<^verbatim>\<open>_assess_overall_risk\<close>\<close>

definition classify :: "real \<Rightarrow> string \<times> string" where
  "classify c =
    (if c \<ge> 8/10 then
       (''CRITICAL'', ''Very high manipulation risk detected across multiple dimensions'')
     else if c \<ge> 6/10 then
       (''HIGH'', ''High manipulation risk with concerning patterns'')
     else if c \<ge> 4/10 then
       (''MODERATE'', ''Moderate risk with some concerning indicators'')
     else if c \<ge> 2/10 then
       (''LOW'', ''Low risk with minimal concerning indicators'')
     else
       (''MINIMAL'', ''Minimal risk, appears to be genuine engagement''))"

text \<open>
  The loop that collects the risk factors. It runs outside every \<^verbatim>\<open>try\<close>: comparing
  a null score raises TypeError and a missing weight raises KeyError, at the first
  entry where one happens.
\<close>

fun collect_risk_factors ::
  "ecs \<Rightarrow> (string \<times> outcome) list \<Rightarrow> py_error + risk_factor list" where
  "collect_risk_factors e [] = Inr []"
| "collect_risk_factors e ((model_name, model_result) # rest) =
    (if status model_result = ''success'' then
       (case score model_result of
          None \<Rightarrow> Inl TypeError
        | Some s \<Rightarrow>
            if s > 5/10 then
              (case getitem (weights e) model_name of
                 Inl err \<Rightarrow> Inl err
               | Inr wt \<Rightarrow>
                  (case collect_risk_factors e rest of
                     Inl err \<Rightarrow> Inl err
                   | Inr fs \<Rightarrow>
                       Inr (\<lparr>model = model_name, factor_score = s, factor_weight = wt\<rparr> # fs)))
            else collect_risk_factors e rest)
     else collect_risk_factors e rest)"

text \<open>
  \<^verbatim>\<open>risk_factors.sort(key=lambda x: x['score'] * x['weight'], reverse=True)\<close>:
  the key is the binary64 product of the two floats, read at its place in the order of
  the floats. A score or weight written as a decimal stands for the float of that
  literal; a binary64 number stands for itself. The product is a nan only for zero
  times an infinity, which takes a score beyond every finite float. Python's sort is
  stable, and with \<^verbatim>\<open>reverse=True\<close> elements with equal keys still keep their
  original order. That is the stable ascending sort on the negated key.
\<close>

definition impact :: "risk_factor \<Rightarrow> real" where
  "impact x = ext (fmul (round64 (factor_score x)) (round64 (factor_weight x)))"

definition sort_by_impact :: "risk_factor list \<Rightarrow> risk_factor list" where
  "sort_by_impact fs = sort_key (\<lambda>x. - impact x) fs"

definition assess_overall_risk ::
  "ecs \<Rightarrow> real \<Rightarrow> (string \<times> outcome) list \<Rightarrow> py_error + risk_assessment" where
  "assess_overall_risk e c mr =
    (case collect_risk_factors e mr of
       Inl err \<Rightarrow> Inl err
     | Inr risk_factors \<Rightarrow>
         Inr \<lparr>risk_level = fst (classify c),
              risk_description = snd (classify c),
              top_risk_factors = take 3 (sort_by_impact risk_factors),
              assessed_score = c\<rparr>)"

subsection \<open>\<^verbatim>\<open>_generate_summary\<close>\<close>

definition successful_models :: "(string \<times> outcome) list \<Rightarrow> nat" where
  "successful_models mr = length (filter (\<lambda>m. status (snd m) = ''success'') mr)"

definition recommendations_for :: "real \<Rightarrow> string list" where
  "recommendations_for c =
    (if c \<ge> 6/10 then [''Consider flagging for manual review'', ''Monitor for similar patterns'']
     else [])
    @ (if c \<ge> 4/10 then [''Review engagement patterns''] else [])
    @ (if c < 2/10 then [''Engagement appears genuine''] else [])"

definition generate_summary ::
  "ecs \<Rightarrow> real \<Rightarrow> (string \<times> outcome) list \<Rightarrow> risk_assessment \<Rightarrow> summary" where
  "generate_summary e c mr ra =
    \<lparr>models_analyzed = (successful_models mr, length (models e)),
     summary_risk_level = risk_level ra,
     recommendations = recommendations_for c,
     analysis_confidence =
       (if successful_models mr \<ge> 7 then ''high''
        else if successful_models mr \<ge> 4 then ''medium'' else ''low'')\<rparr>"

subsection \<open>\<^verbatim>\<open>analyze_tweet_comprehensive\<close>\<close>

definition analyze_tweet_comprehensive :: "ecs \<Rightarrow> world \<Rightarrow> string \<Rightarrow> py_error + results" where
  "analyze_tweet_comprehensive e w tweet =
    (let st = run_models e w tweet;
         c = composite_of st
     in case assess_overall_risk e c (rs_model_results st) of
          Inl err \<Rightarrow> Inl err
        | Inr ra \<Rightarrow>
            Inr \<lparr>tweet_id = tweet, timestamp = now w,
                 model_results = rs_model_results st,
                 composite_score = c,
                 weighted_breakdown = rs_weighted_breakdown st,
                 risk_assessment = ra,
                 summary = generate_summary e c (rs_model_results st) ra\<rparr>)"

subsection \<open>The loop in binary64\<close>

text \<open>
  The loop once more, with the arithmetic of lines 232 to 242 and 269 to 275 as the
  interpreter does it: the weight is the float of its literal, and the product, the two
  sums and the quotient are rounded. The floats that come from a scorer are binary64
  numbers already, which \<open>round64\<close> leaves as they are. The outcomes recorded are
  those of \<open>record_outcome\<close>; the sums and the composite score differ from the exact
  ones by the rounding.
\<close>

record breakdown64 =
  raw_score64 :: real
  weight64 :: b64
  weighted_contribution64 :: b64

record run_state64 =
  rs64_model_results :: "(string \<times> outcome) list"
  rs64_weighted_breakdown :: "(string \<times> breakdown64) list"
  total_weight64 :: b64
  weighted_sum64 :: b64

definition record_error64 :: "string \<Rightarrow> py_error \<Rightarrow> run_state64 \<Rightarrow> run_state64" where
  "record_error64 model_name err st =
    st\<lparr>rs64_model_results := setitem (rs64_model_results st) model_name
      \<lparr>score = None, full_result = None, status = ''error'',
       error = Some (str_of_error err)\<rparr>\<rparr>"

definition record_outcome64 ::
  "ecs \<Rightarrow> string \<Rightarrow> (string \<times> pyval) list \<Rightarrow> run_state64 \<Rightarrow> run_state64" where
  "record_outcome64 e model_name model_result st =
    (case getitem (score_keys e) model_name of
       Inl err \<Rightarrow> record_error64 model_name err st
     | Inr score_key \<Rightarrow>
        (case map_of model_result score_key of
           None \<Rightarrow>
             st\<lparr>rs64_model_results := setitem (rs64_model_results st) model_name
               \<lparr>score = None, full_result = Some model_result,
                status = ''score_not_found'', error = None\<rparr>\<rparr>
         | Some v \<Rightarrow>
            (case valid_score v of
               None \<Rightarrow>
                 st\<lparr>rs64_model_results := setitem (rs64_model_results st) model_name
                   \<lparr>score = None, full_result = Some model_result,
                    status = ''invalid_score'', error = None\<rparr>\<rparr>
             | Some s \<Rightarrow>
                (let st1 = st\<lparr>rs64_model_results := setitem (rs64_model_results st) model_name
                        \<lparr>score = Some s, full_result = Some model_result,
                         status = ''success'', error = None\<rparr>\<rparr>
                 in case getitem (weights e) model_name of
                      Inl err \<Rightarrow> record_error64 model_name err st1
                    | Inr wt \<Rightarrow>
                       (let weight = round64 wt;
                            weighted_contribution = fmul (round64 s) weight
                        in st1\<lparr>weighted_sum64 := fadd (weighted_sum64 st1) weighted_contribution,
                               total_weight64 := fadd (total_weight64 st1) weight,
                               rs64_weighted_breakdown :=
                                 setitem (rs64_weighted_breakdown st1) model_name
                                   \<lparr>raw_score64 = s, weight64 = weight,
                                    weighted_contribution64 = weighted_contribution\<rparr>\<rparr>)))))"

definition analyze_model64 ::
  "ecs \<Rightarrow> world \<Rightarrow> string \<Rightarrow> run_state64 \<Rightarrow> string \<times> bool \<Rightarrow> run_state64" where
  "analyze_model64 e w tweet st m =
    (case m of (model_name, loaded) \<Rightarrow>
      if \<not> loaded then st
      else
        (case getitem (analysis_methods e) model_name of
           Inl err \<Rightarrow> record_error64 model_name err st
         | Inr method_name \<Rightarrow>
            (case get_model_result e w tweet model_name method_name of
               Inl err \<Rightarrow> record_error64 model_name err st
             | Inr model_result \<Rightarrow> record_outcome64 e model_name model_result st)))"

definition empty_state64 :: run_state64 where
  "empty_state64 =
    \<lparr>rs64_model_results = [], rs64_weighted_breakdown = [],
     total_weight64 = Num 0, weighted_sum64 = Num 0\<rparr>"

definition run_models64 :: "ecs \<Rightarrow> world \<Rightarrow> string \<Rightarrow> run_state64" where
  "run_models64 e w tweet = foldl (analyze_model64 e w tweet) empty_state64 (models e)"

text \<open>
  "Calculate composite score". The quotient is taken only behind the test
  \<^verbatim>\<open>total_weight > 0\<close>, so the division does not raise.
\<close>

definition composite_of64 :: "run_state64 \<Rightarrow> arith_error + b64" where
  "composite_of64 st =
    (if fgt0 (total_weight64 st) then fdiv (weighted_sum64 st) (total_weight64 st)
     else Inr (Num 0))"

subsection \<open>Accounting of a run\<close>

text \<open>
  The weighted mean as the specification words it: only an outcome with status success
  counts, with its score and the weight of its model. These definitions are what the
  sums of the loop are compared with; the loop itself is \<open>run_models\<close> above.
\<close>

definition contribution :: "ecs \<Rightarrow> string \<times> outcome \<Rightarrow> (real \<times> real) option" where
  "contribution e m =
    (if status (snd m) = ''success'' then
       (case score (snd m) of
          None \<Rightarrow> None
        | Some s \<Rightarrow> (case map_of (weights e) (fst m) of None \<Rightarrow> None | Some wt \<Rightarrow> Some (s, wt)))
     else None)"

text \<open>The (score, weight) pairs of the successful outcomes, in registration order.\<close>

definition success_pairs :: "ecs \<Rightarrow> (string \<times> outcome) list \<Rightarrow> (real \<times> real) list" where
  "success_pairs e mr = List.map_filter (contribution e) mr"

text \<open>The entry of \<^verbatim>\<open>weighted_breakdown\<close> that belongs to an outcome.\<close>

definition breakdown_entry :: "ecs \<Rightarrow> string \<times> outcome \<Rightarrow> (string \<times> breakdown) option" where
  "breakdown_entry e m =
    (case contribution e m of
       None \<Rightarrow> None
     | Some p \<Rightarrow> Some (fst m, \<lparr>raw_score = fst p, weight = snd p,
                               weighted_contribution = fst p * snd p\<rparr>))"

text \<open>
  A success entry has a score in the unit interval and a model with a weight; every
  other entry has no score.
\<close>

definition well_scored :: "ecs \<Rightarrow> string \<times> outcome \<Rightarrow> bool" where
  "well_scored e m =
    (if status (snd m) = ''success''
     then (case score (snd m) of None \<Rightarrow> False
           | Some s \<Rightarrow> 0 \<le> s \<and> s \<le> 1 \<and> map_of (weights e) (fst m) \<noteq> None)
     else score (snd m) = None)"

text \<open>The state of the loop agrees with the outcomes recorded so far.\<close>

definition consistent :: "ecs \<Rightarrow> run_state \<Rightarrow> bool" where
  "consistent e st =
    (list_all (well_scored e) (rs_model_results st)
     \<and> rs_weighted_breakdown st = List.map_filter (breakdown_entry e) (rs_model_results st)
     \<and> weighted_sum st = sum_list (map (\<lambda>p. fst p * snd p) (success_pairs e (rs_model_results st)))
     \<and> total_weight st = sum_list (map snd (success_pairs e (rs_model_results st))))"

text \<open>The four statuses that the code writes.\<close>

definition known_status :: "string \<times> outcome \<Rightarrow> bool" where
  "known_status m = (status (snd m) \<in> set [''success'', ''invalid_score'', ''score_not_found'', ''error''])"

text \<open>
  The two sums of the binary64 loop, as a fold over (score, weight) pairs in order:
  each step rounds the weight's literal, the product and the two sums.
\<close>

definition add_pair64 :: "b64 \<times> b64 \<Rightarrow> real \<times> real \<Rightarrow> b64 \<times> b64" where
  "add_pair64 acc p =
    (fadd (fst acc) (fmul (round64 (fst p)) (round64 (snd p))), fadd (snd acc) (round64 (snd p)))"

definition sum64 :: "(real \<times> real) list \<Rightarrow> b64 \<times> b64" where
  "sum64 ps = foldl add_pair64 (Num 0, Num 0) ps"

definition consistent64 :: "ecs \<Rightarrow> run_state64 \<Rightarrow> bool" where
  "consistent64 e st =
    ((weighted_sum64 st, total_weight64 st) = sum64 (success_pairs e (rs64_model_results st)))"

text \<open>
  For comparison: the pairs with every score replaced by one value, and the composite
  score as a function of the two sums.
\<close>

definition constant_scores :: "real \<Rightarrow> (real \<times> real) list \<Rightarrow> (real \<times> real) list" where
  "constant_scores v ps = map (\<lambda>p. (v, snd p)) ps"

definition composite_of_sums :: "b64 \<times> b64 \<Rightarrow> arith_error + b64" where
  "composite_of_sums acc = (if fgt0 (snd acc) then fdiv (fst acc) (snd acc) else Inr (Num 0))"

subsection \<open>Scenarios\<close>

text \<open>
  A world in which exactly the listed model directories exist, each with its
  \<^verbatim>\<open>simple_score.py\<close>, and in which the scorer of a directory behaves as given.
\<close>

definition scenario :: "string list \<Rightarrow> (string \<Rightarrow> process) \<Rightarrow> world" where
  "scenario present behaviour =
    \<lparr>dir_exists = (\<lambda>p. p \<in> set present),
     script_exists = (\<lambda>p. p \<in> set present),
     run_script = (\<lambda>p t. behaviour p),
     now = ''2025-01-01T00:00:00''\<rparr>"

definition nothing_installed :: world where
  "nothing_installed = scenario [] (\<lambda>p. SpawnFailed)"

text \<open>
  Three models are installed and emit 0.8, 0.6 and 0.4; their weights are 1.0, 0.6 and
  0.6. The report is what the analysis returns in that world.
\<close>

definition scenario_1 :: world where
  "scenario_1 = scenario
     [''../Coordinated_Account_Network_Model'', ''../Emotive_Manipulation_Detector'',
      ''../Generic_Comment_Detector'']
     (\<lambda>p. if p = ''../Coordinated_Account_Network_Model'' then Completed 0 (Float (Finite (8/10)))
          else if p = ''../Emotive_Manipulation_Detector'' then Completed 0 (Float (Finite (6/10)))
          else Completed 0 (Float (Finite (4/10))))"

definition scenario_1_report :: results where
  "scenario_1_report =
    \<lparr>tweet_id = ''1'', timestamp = ''2025-01-01T00:00:00'',
     model_results =
       [(''coordinated_network'',
           \<lparr>score = Some (8/10),
            full_result = Some [(''coordination_score'', PyFloat (Finite (8/10)))],
            status = ''success'', error = None\<rparr>),
        (''emotive_manipulation'',
           \<lparr>score = Some (6/10),
            full_result = Some [(''manipulation_score'', PyFloat (Finite (6/10)))],
            status = ''success'', error = None\<rparr>),
        (''generic_comment'',
           \<lparr>score = Some (4/10),
            full_result = Some [(''generic_content_score'', PyFloat (Finite (4/10)))],
            status = ''success'', error = None\<rparr>)],
     composite_score = 7/11,
     weighted_breakdown =
       [(''coordinated_network'',
           \<lparr>raw_score = 8/10, weight = 1, weighted_contribution = 8/10\<rparr>),
        (''emotive_manipulation'',
           \<lparr>raw_score = 6/10, weight = 6/10, weighted_contribution = 36/100\<rparr>),
        (''generic_comment'',
           \<lparr>raw_score = 4/10, weight = 6/10, weighted_contribution = 24/100\<rparr>)],
     risk_assessment =
       \<lparr>risk_level = ''HIGH'',
        risk_description = ''High manipulation risk with concerning patterns'',
        top_risk_factors =
          [\<lparr>model = ''coordinated_network'', factor_score = 8/10, factor_weight = 1\<rparr>,
           \<lparr>model = ''emotive_manipulation'', factor_score = 6/10, factor_weight = 6/10\<rparr>],
        assessed_score = 7/11\<rparr>,
     summary =
       \<lparr>models_analyzed = (3, 10), summary_risk_level = ''HIGH'',
        recommendations = [''Consider flagging for manual review'',
          ''Monitor for similar patterns'', ''Review engagement patterns''],
        analysis_confidence = ''low''\<rparr>\<rparr>"

text \<open>
  Two models are installed. The first emits 1.0; the second emits 1.5 in one world and
  runs into the timeout in the other. Both worlds give the same report.
\<close>

definition out_of_range_world :: world where
  "out_of_range_world = scenario
     [''../Hyperbole_Falsehood_detector'', ''../Clickbait_Headline_Classifier'']
     (\<lambda>p. if p = ''../Hyperbole_Falsehood_detector'' then Completed 0 (Float (Finite 1))
          else Completed 0 (Float (Finite (15/10))))"

definition timeout_world :: world where
  "timeout_world = scenario
     [''../Hyperbole_Falsehood_detector'', ''../Clickbait_Headline_Classifier'']
     (\<lambda>p. if p = ''../Hyperbole_Falsehood_detector'' then Completed 0 (Float (Finite 1))
          else TimeoutExpired)"

definition two_model_report :: results where
  "two_model_report =
    \<lparr>tweet_id = ''1'', timestamp = ''2025-01-01T00:00:00'',
     model_results =
       [(''hyperbole_falsehood'',
           \<lparr>score = Some 1,
            full_result = Some [(''manipulation_score'', PyFloat (Finite 1))],
            status = ''success'', error = None\<rparr>),
        (''clickbait'',
           \<lparr>score = Some 0,
            full_result = Some [(''clickbait_score'', PyFloat (Finite 0))],
            status = ''success'', error = None\<rparr>)],
     composite_score = 3/7,
     weighted_breakdown =
       [(''hyperbole_falsehood'',
           \<lparr>raw_score = 1, weight = 6/10, weighted_contribution = 6/10\<rparr>),
        (''clickbait'',
           \<lparr>raw_score = 0, weight = 8/10, weighted_contribution = 0\<rparr>)],
     risk_assessment =
       \<lparr>risk_level = ''MODERATE'',
        risk_description = ''Moderate risk with some concerning indicators'',
        top_risk_factors =
          [\<lparr>model = ''hyperbole_falsehood'', factor_score = 1, factor_weight = 6/10\<rparr>],
        assessed_score = 3/7\<rparr>,
     summary =
       \<lparr>models_analyzed = (2, 10), summary_risk_level = ''MODERATE'',
        recommendations = [''Review engagement patterns''],
        analysis_confidence = ''low''\<rparr>\<rparr>"




text \<open>
  Outcomes for the ranking of risk factors. With weights 0.6 and 0.8 the products
  1.0 * 0.6 and 0.75 * 0.8 are equal as real numbers, but the floats are
  0.6 and 0.6000000000000001. The list has the first product once, the second twice,
  one larger product, one score under the 0.5 bar and one failed model.
\<close>

definition tie_results :: "(string \<times> outcome) list" where
  "tie_results =
    [(''hyperbole_falsehood'',
        \<lparr>score = Some 1, full_result = None, status = ''success'', error = None\<rparr>),
     (''clickbait'',
        \<lparr>score = Some (3/4), full_result = None, status = ''success'', error = None\<rparr>),
     (''engagement_mismatch'',
        \<lparr>score = Some (15/16), full_result = None, status = ''success'', error = None\<rparr>),
     (''content_recycling'',
        \<lparr>score = None, full_result = None, status = ''error'', error = Some ''boom''\<rparr>),
     (''generic_comment'',
        \<lparr>score = Some (1/4), full_result = None, status = ''success'', error = None\<rparr>),
     (''reply_bait'',
        \<lparr>score = Some (3/4), full_result = None, status = ''success'', error = None\<rparr>)]"

text \<open>
  One model is installed, with weight 0.7, and emits 0.8: the float
  3602879701896397 / 2 ^ 52.
\<close>

definition rounding_world :: world where
  "rounding_world = scenario [''../Authority_Signal_Manipulation'']
     (\<lambda>p. Completed 0 (Float (Finite (3602879701896397 / 4503599627370496))))"

section \<open>Properties\<close>

subsection \<open>Binary64 rounding\<close>

lemma round_even_int [simp]: "round_even (of_int n) = n"
  by (simp add: round_even_def)

lemma round_even_numeral [simp]: "round_even (numeral n) = numeral n"
  using round_even_int[of "numeral n"] by simp

lemma round_even_0 [simp]: "round_even 0 = 0"
  using round_even_int[of 0] by simp

lemma round_even_1 [simp]: "round_even 1 = 1"
  using round_even_int[of 1] by simp

lemma round_even_mono: "x \<le> y \<Longrightarrow> round_even x \<le> round_even y"
proof -
  assume xy: "x \<le> y"
  have lo: "\<And>z. of_int (round_even z) \<ge> z - 1/2"
    unfolding round_even_def Let_def by (auto; linarith)
  have hi: "\<And>z. of_int (round_even z) \<le> z + 1/2"
    unfolding round_even_def Let_def by (auto; linarith)
  show ?thesis
  proof (cases "\<lfloor>x\<rfloor> = \<lfloor>y\<rfloor>")
    case True
    then show ?thesis using xy
      unfolding round_even_def Let_def by (auto; linarith)
  next
    case False
    then have fl: "\<lfloor>x\<rfloor> + 1 \<le> \<lfloor>y\<rfloor>" using xy floor_mono[OF xy] by linarith
    have a: "round_even x \<le> \<lfloor>x\<rfloor> + 1"
      unfolding round_even_def Let_def by auto
    have b: "\<lfloor>y\<rfloor> \<le> round_even y"
      unfolding round_even_def Let_def by auto
    from a b fl show ?thesis by linarith
  qed
qed

lemma round_even_nonneg: "0 \<le> x \<Longrightarrow> 0 \<le> round_even x"
  using round_even_mono[of 0 x] round_even_int[of 0] by simp

lemma find_exp_range: "k \<le> find_exp n k a \<and> find_exp n k a \<le> k + int n"
proof (induction n arbitrary: k)
  case 0
  then show ?case by simp
next
  case (Suc n)
  from Suc[of "k + 1"] show ?case by auto
qed

lemma find_exp_upper: "find_exp n k a < k + int n \<Longrightarrow> a < 2 powi (find_exp n k a + 53)"
  by (induction n arbitrary: k) (auto split: if_splits)

lemma find_exp_lower: "k \<le> j \<Longrightarrow> j < find_exp n k a \<Longrightarrow> 2 powi (j + 53) \<le> a"
proof (induction n arbitrary: k)
  case 0
  then show ?case by simp
next
  case (Suc n)
  show ?case
  proof (cases "a < 2 powi (k + 53)")
    case True
    with Suc.prems show ?thesis by simp
  next
    case False
    show ?thesis
    proof (cases "j = k")
      case True
      with False show ?thesis by simp
    next
      case False2: False
      with Suc.prems False have "k + 1 \<le> j" "j < find_exp n (k + 1) a" by auto
      from Suc.IH[OF this] show ?thesis .
    qed
  qed
qed

lemma quantum_range: "- 1074 \<le> quantum x \<and> quantum x \<le> 971"
  using find_exp_range[of "- 1074" 2045 "\<bar>x\<bar>"] by (simp add: quantum_def)

lemma quantum_upper: "quantum x < 971 \<Longrightarrow> \<bar>x\<bar> < 2 powi (quantum x + 53)"
  using find_exp_upper[of 2045 "- 1074" "\<bar>x\<bar>"] by (simp add: quantum_def)

lemma quantum_lower: "- 1074 < quantum x \<Longrightarrow> 2 powi (quantum x + 52) \<le> \<bar>x\<bar>"
  using find_exp_lower[of "- 1074" "quantum x - 1" 2045 "\<bar>x\<bar>"]
  by (simp add: quantum_def add.commute)

lemma quantum_lower_all: "- 1074 \<le> j \<Longrightarrow> j < quantum x \<Longrightarrow> 2 powi (j + 53) \<le> \<bar>x\<bar>"
  using find_exp_lower[of "- 1074" j 2045 "\<bar>x\<bar>"] by (simp add: quantum_def)

lemma quantum_mono: "\<bar>x\<bar> \<le> \<bar>y\<bar> \<Longrightarrow> quantum x \<le> quantum y"
proof (rule ccontr)
  assume le: "\<bar>x\<bar> \<le> \<bar>y\<bar>" and "\<not> quantum x \<le> quantum y"
  then have lt: "quantum y < quantum x" by simp
  then have "quantum y < 971" using quantum_range[of x] by linarith
  from quantum_upper[OF this] have "\<bar>y\<bar> < 2 powi (quantum y + 53)" .
  moreover have "2 powi (quantum y + 53) \<le> \<bar>x\<bar>"
    using quantum_lower_all[of "quantum y" x] quantum_range[of y] lt by simp
  ultimately show False using le by linarith
qed

lemma quantum_eq:
  assumes "- 1074 \<le> k" "k \<le> 971" "\<bar>x\<bar> < 2 powi (k + 53)"
    and "k = - 1074 \<or> 2 powi (k + 52) \<le> \<bar>x\<bar>"
  shows "quantum x = k"
proof (rule antisym)
  show "quantum x \<le> k"
  proof (rule ccontr)
    assume "\<not> quantum x \<le> k"
    then have "k < quantum x" by simp
    from quantum_lower_all[OF assms(1) this] assms(3) show False by linarith
  qed
  show "k \<le> quantum x"
  proof (rule ccontr)
    assume "\<not> k \<le> quantum x"
    then have lt: "quantum x < k" by simp
    then have "quantum x < 971" using assms(2) by linarith
    from quantum_upper[OF this] have u: "\<bar>x\<bar> < 2 powi (quantum x + 53)" .
    have "k \<noteq> - 1074" using lt quantum_range[of x] by linarith
    with assms(4) have "2 powi (k + 52) \<le> \<bar>x\<bar>" by simp
    moreover have "(2::real) powi (quantum x + 53) \<le> 2 powi (k + 52)"
      using lt by (intro power_int_increasing) auto
    ultimately show False using u by linarith
  qed
qed

lemma huge_pos: "0 < huge"
  unfolding huge_def by (rule zero_less_power_int) simp

lemma huge_gt_1: "1 < huge"
proof -
  have "(2::real) powi 0 < 2 powi 1024" by (rule power_int_strict_increasing) simp_all
  then show ?thesis by (simp only: huge_def power_int_0_right)
qed

lemma pow_shift: "(2::real) powi (k + int n) = 2 ^ n * 2 powi k"
  by (simp add: power_int_add)

lemma rounded_nonneg: "0 \<le> x \<Longrightarrow> 0 \<le> rounded x"
  unfolding rounded_def by (intro mult_nonneg_nonneg) (auto intro!: round_even_nonneg)

lemma rounded_le_pow:
  assumes "0 \<le> x" "x < 2 powi (quantum x + 53)"
  shows "rounded x \<le> 2 powi (quantum x + 53)"
proof -
  let ?q = "(2::real) powi quantum x"
  have q: "0 < ?q" by simp
  have "x < 2 ^ 53 * ?q" using assms(2) pow_shift[of "quantum x" 53] by simp
  then have "x / ?q \<le> of_int (2 ^ 53)" using q by (simp add: pos_divide_le_eq)
  from round_even_mono[OF this] have "round_even (x / ?q) \<le> 2 ^ 53" by simp
  then have "of_int (round_even (x / ?q)) \<le> (2 ^ 53 :: real)"
    by (metis of_int_le_iff of_int_numeral of_int_power)
  then have "rounded x \<le> 2 ^ 53 * ?q"
    unfolding rounded_def using q by (simp add: mult_right_mono)
  then show ?thesis using pow_shift[of "quantum x" 53] by simp
qed

lemma rounded_ge_pow:
  assumes "0 \<le> x" "2 powi (quantum x + 52) \<le> x"
  shows "2 powi (quantum x + 52) \<le> rounded x"
proof -
  let ?q = "(2::real) powi quantum x"
  have q: "0 < ?q" by simp
  have "2 ^ 52 * ?q \<le> x" using assms(2) pow_shift[of "quantum x" 52] by simp
  then have "of_int (2 ^ 52) \<le> x / ?q" using q by (simp add: pos_le_divide_eq)
  from round_even_mono[OF this] have "2 ^ 52 \<le> round_even (x / ?q)" by simp
  then have "(2 ^ 52 :: real) \<le> of_int (round_even (x / ?q))"
    by (metis of_int_le_iff of_int_numeral of_int_power)
  then have "2 ^ 52 * ?q \<le> rounded x"
    unfolding rounded_def using q by (simp add: mult_right_mono)
  then show ?thesis using pow_shift[of "quantum x" 52] by simp
qed

lemma rounded_mono:
  assumes "0 \<le> x" "x \<le> y"
  shows "rounded x \<le> rounded y"
proof -
  have le: "quantum x \<le> quantum y" using assms by (intro quantum_mono) simp
  show ?thesis
  proof (cases "quantum x = quantum y")
    case True
    let ?q = "(2::real) powi quantum y"
    have "x / ?q \<le> y / ?q" using assms by (simp add: divide_right_mono)
    from round_even_mono[OF this] show ?thesis
      unfolding rounded_def True by (simp add: mult_right_mono)
  next
    case False
    with le have lt: "quantum x < quantum y" by simp
    have "quantum x < 971" using lt quantum_range[of y] by linarith
    from quantum_upper[OF this] assms have "x < 2 powi (quantum x + 53)" by simp
    from rounded_le_pow[OF assms(1) this] have a: "rounded x \<le> 2 powi (quantum x + 53)" .
    have "- 1074 < quantum y" using lt quantum_range[of x] by linarith
    from quantum_lower[OF this] assms have "2 powi (quantum y + 52) \<le> y" by simp
    from rounded_ge_pow[OF _ this] assms have b: "2 powi (quantum y + 52) \<le> rounded y" by simp
    have "(2::real) powi (quantum x + 53) \<le> 2 powi (quantum y + 52)"
      using lt by (intro power_int_increasing) auto
    with a b show ?thesis by linarith
  qed
qed

lemma ext_round64_mono:
  assumes "0 \<le> x" "x \<le> y"
  shows "ext (round64 x) \<le> ext (round64 y)"
proof -
  have "0 \<le> rounded x" "rounded x \<le> rounded y"
    using rounded_nonneg[OF assms(1)] rounded_mono[OF assms] by auto
  then show ?thesis
    using huge_pos unfolding round64_def ext_def by auto
qed

lemma round64_eval:
  assumes "- 1074 \<le> k" "k \<le> 971" "\<bar>x\<bar> < 2 powi (k + 53)"
    and "k = - 1074 \<or> 2 powi (k + 52) \<le> \<bar>x\<bar>"
    and "r = of_int (round_even (x / 2 powi k)) * 2 powi k"
    and "\<bar>r\<bar> < huge"
  shows "round64 x = Num r"
proof -
  have "quantum x = k" using quantum_eq[OF assms(1-4)] .
  then have "rounded x = r" by (simp add: rounded_def assms(5))
  then show ?thesis using assms(6) unfolding round64_def by auto
qed

lemma round64_idem:
  assumes "0 \<le> x" "round64 x = Num r"
  shows "round64 r = Num r"
proof -
  let ?k = "quantum x"
  let ?q = "(2::real) powi ?k"
  let ?m = "round_even (x / ?q)"
  have q: "0 < ?q" by simp
  have rr: "rounded x = r" and fin: "r < huge"
    using assms(2) unfolding round64_def by (auto split: if_splits)
  have r0: "0 \<le> r" using rounded_nonneg[OF assms(1)] rr by simp
  have rq: "r = of_int ?m * ?q" using rr by (simp add: rounded_def)
  have kr: "- 1074 \<le> ?k" "?k \<le> 971" using quantum_range[of x] by auto
  have xlt: "x < 2 powi (?k + 53)"
  proof (cases "?k < 971")
    case True
    from quantum_upper[OF this] assms(1) show ?thesis by simp
  next
    case False
    then have k: "?k = 971" using kr by linarith
    show ?thesis
    proof (rule ccontr)
      assume "\<not> x < 2 powi (?k + 53)"
      then have "2 powi (?k + 52 + 1) \<le> x" by (simp add: add.assoc)
      then have "2 powi (quantum x + 53) \<le> x" by (simp add: add.assoc)
      then have "2 ^ 53 * ?q \<le> x" using pow_shift[of "quantum x" 53] by simp
      then have "of_int (2 ^ 53) \<le> x / ?q" using q by (simp add: pos_le_divide_eq)
      from round_even_mono[OF this] have "2 ^ 53 \<le> ?m" by simp
      then have "(2 ^ 53 :: real) \<le> of_int ?m"
        by (metis of_int_le_iff of_int_numeral of_int_power)
      then have "2 ^ 53 * ?q \<le> r" unfolding rq using q by (simp add: mult_right_mono)
      then have "2 powi (?k + 53) \<le> r" using pow_shift[of "quantum x" 53] by simp
      then show False using fin k by (simp add: huge_def del: power_int_numeral)
    qed
  qed
  have rle: "r \<le> 2 powi (?k + 53)" using rounded_le_pow[OF assms(1) xlt] rr by simp
  have rge: "?k = - 1074 \<or> 2 powi (?k + 52) \<le> r"
  proof (cases "?k = - 1074")
    case True
    then show ?thesis by simp
  next
    case False
    then have "- 1074 < ?k" using kr by linarith
    from quantum_lower[OF this] assms(1) have "2 powi (?k + 52) \<le> x" by simp
    from rounded_ge_pow[OF assms(1) this] rr show ?thesis by simp
  qed
  show ?thesis
  proof (cases "r < 2 powi (?k + 53)")
    case True
    have "round_even (r / ?q) = ?m" using rq q by simp
    then have e: "r = of_int (round_even (r / 2 powi ?k)) * 2 powi ?k" using rq by simp
    show ?thesis
      by (rule round64_eval[OF kr _ _ e]) (use True rge r0 fin in auto)
  next
    case False
    with rle have req: "r = 2 powi (?k + 53)" by simp
    have k1: "?k + 1 \<le> 971"
    proof (rule ccontr)
      assume "\<not> ?k + 1 \<le> 971"
      then have "?k = 971" using kr by linarith
      with req fin show False by (simp add: huge_def del: power_int_numeral)
    qed
    have p1: "(2::real) powi (?k + 1 + 52) = r" using req by (simp add: add.assoc)
    have p2: "r < 2 powi (?k + 1 + 53)"
      unfolding req by (intro power_int_strict_increasing) auto
    have "r / 2 powi (?k + 1) = 2 ^ 52"
      using p1 pow_shift[of "?k + 1" 52] by simp
    then have "round_even (r / 2 powi (?k + 1)) = 2 ^ 52"
      by (metis of_int_numeral of_int_power round_even_int)
    then have e: "r = of_int (round_even (r / 2 powi (?k + 1))) * 2 powi (?k + 1)"
      using p1 pow_shift[of "?k + 1" 52] by simp
    show ?thesis
      by (rule round64_eval[OF _ k1 _ _ e]) (use kr p1 p2 r0 fin in auto)
  qed
qed

lemma round64_0: "round64 0 = Num 0"
  by (rule round64_eval[where k = "- 1074"]) (use huge_pos in simp_all)

lemma round64_1: "round64 1 = Num 1"
  by (rule round64_eval[where k = "- 52"]) (use huge_gt_1 in simp_all)

lemma round64_nonneg_cases:
  assumes "0 \<le> x"
  shows "round64 x = PosInf \<or> (\<exists>r. round64 x = Num r \<and> 0 \<le> r)"
proof (cases "rounded x \<ge> huge")
  case True
  then show ?thesis by (simp add: round64_def)
next
  case False
  have "\<not> rounded x \<le> - (huge)"
  proof
    assume "rounded x \<le> - (huge)"
    then show False using rounded_nonneg[OF assms] huge_pos by linarith
  qed
  with False have "round64 x = Num (rounded x)" by (simp add: round64_def)
  with rounded_nonneg[OF assms] show ?thesis by blast
qed

lemma ext_Num_lt: "ext (round64 x) < huge \<Longrightarrow> 0 \<le> x \<Longrightarrow> \<exists>r. round64 x = Num r \<and> 0 \<le> r"
proof -
  assume a: "ext (round64 x) < huge" and b: "0 \<le> x"
  from round64_nonneg_cases[OF b] show ?thesis
  proof
    assume "round64 x = PosInf"
    then have "ext (round64 x) = huge" by (simp add: ext_def)
    with a show ?thesis by linarith
  next
    assume "\<exists>r. round64 x = Num r \<and> 0 \<le> r"
    then obtain r where "round64 x = Num r" "0 \<le> r" by blast
    then show ?thesis by (simp add: ext_def)
  qed
qed

lemma round64_le_num:
  assumes "0 \<le> x" "x \<le> y" "round64 y = Num b"
  shows "\<exists>a. round64 x = Num a \<and> 0 \<le> a \<and> a \<le> b"
proof -
  have yb: "b < huge"
    using assms(3) unfolding round64_def
    by (auto split: if_splits)
  have "ext (round64 x) \<le> ext (round64 y)" using ext_round64_mono[OF assms(1,2)] .
  then have "ext (round64 x) \<le> b" using assms(3) by (simp add: ext_def)
  with yb have "ext (round64 x) < huge" by linarith
  from ext_Num_lt[OF this assms(1)] obtain r where r: "round64 x = Num r" "0 \<le> r"
    by blast
  from \<open>ext (round64 x) \<le> b\<close> have "r \<le> b" by (simp add: r(1) ext_def)
  with r show ?thesis by blast
qed

lemma round64_unit:
  assumes "0 \<le> x" "x \<le> 1"
  shows "\<exists>a. round64 x = Num a \<and> 0 \<le> a \<and> a \<le> 1"
  using round64_le_num[OF assms round64_1] .

lemma add_pair64_bounds:
  assumes acc: "tw = PosInf \<or> (\<exists>a t. ws = Num a \<and> tw = Num t \<and> 0 \<le> a \<and> a \<le> t)"
    and p: "0 \<le> s" "s \<le> 1" "0 < wt"
    and res: "add_pair64 (ws, tw) (s, wt) = (ws', tw')"
  shows "tw' = PosInf \<or> (\<exists>a t. ws' = Num a \<and> tw' = Num t \<and> 0 \<le> a \<and> a \<le> t)"
proof -
  from round64_unit[OF p(1,2)] obtain s1 where s1: "round64 s = Num s1" "0 \<le> s1" "s1 \<le> 1" by blast
  have tw': "tw' = fadd tw (round64 wt)" and ws': "ws' = fadd ws (fmul (round64 s) (round64 wt))"
    using res by (auto simp: add_pair64_def)
  from round64_nonneg_cases[of wt] p(3)
  consider "round64 wt = PosInf" | w1 where "round64 wt = Num w1" "0 \<le> w1" by auto
  then show ?thesis
  proof cases
    case 1
    from acc have "tw = PosInf \<or> (\<exists>t. tw = Num t)" by auto
    then have "tw' = PosInf" unfolding tw' 1 by auto
    then show ?thesis by simp
  next
    case 2
    show ?thesis
    proof (cases "tw = PosInf")
      case True
      then show ?thesis unfolding tw' 2 by simp
    next
      case False
      with acc obtain a t where at: "ws = Num a" "tw = Num t" "0 \<le> a" "a \<le> t" by blast
      have w1d: "round64 w1 = Num w1" using round64_idem[OF _ 2(1)] p(3) by simp
      have "0 \<le> s1 * w1" "s1 * w1 \<le> w1" using s1 2(2) by (auto simp: mult_left_le_one_le)
      from round64_le_num[OF this w1d] obtain c where c: "round64 (s1 * w1) = Num c" "0 \<le> c" "c \<le> w1"
        by blast
      have ws2: "ws' = round64 (a + c)" unfolding ws' s1 2 at by (simp add: c)
      have tw2: "tw' = round64 (t + w1)" unfolding tw' 2 at by simp
      from round64_nonneg_cases[of "t + w1"] at 2(2)
      consider "tw' = PosInf" | t' where "round64 (t + w1) = Num t'" "0 \<le> t'" unfolding tw2 by auto
      then show ?thesis
      proof cases
        case 1
        then show ?thesis by simp
      next
        case 2
        have "0 \<le> a + c" "a + c \<le> t + w1" using at c by auto
        from round64_le_num[OF this 2(1)] show ?thesis unfolding ws2 tw2 2(1) by auto
      qed
    qed
  qed
qed

lemma sum64_snoc: "sum64 (ps @ [p]) = add_pair64 (sum64 ps) p"
  by (simp add: sum64_def)

lemma sum64_bounds:
  assumes "\<forall>p \<in> set ps. 0 \<le> fst p \<and> fst p \<le> 1 \<and> 0 < snd p"
  shows "snd (sum64 ps) = PosInf \<or>
         (\<exists>a t. fst (sum64 ps) = Num a \<and> snd (sum64 ps) = Num t \<and> 0 \<le> a \<and> a \<le> t)"
  using assms
proof (induction ps rule: rev_induct)
  case Nil
  then show ?case by (simp add: sum64_def)
next
  case (snoc p ps)
  then have ih: "snd (sum64 ps) = PosInf \<or>
         (\<exists>a t. fst (sum64 ps) = Num a \<and> snd (sum64 ps) = Num t \<and> 0 \<le> a \<and> a \<le> t)"
    and pp: "0 \<le> fst p" "fst p \<le> 1" "0 < snd p" by auto
  have "add_pair64 (fst (sum64 ps), snd (sum64 ps)) (fst p, snd p)
       = (fst (sum64 (ps @ [p])), snd (sum64 (ps @ [p])))"
    by (simp add: sum64_snoc)
  from add_pair64_bounds[OF ih pp this] show ?case .
qed

lemma composite64_unit:
  assumes "tw = Num t" "ws = Num a" "0 \<le> a" "a \<le> t"
  shows "\<exists>c. (if fgt0 tw then fdiv ws tw else Inr (Num 0)) = Inr (Num c) \<and> 0 \<le> c \<and> c \<le> 1"
proof (cases "t > 0")
  case True
  then have "0 \<le> a / t" "a / t \<le> 1" using assms by auto
  from round64_unit[OF this] show ?thesis using True assms by auto
next
  case False
  then show ?thesis using assms by auto
qed

subsection \<open>Dictionary assignment\<close>

lemma setitem_fresh: "k \<notin> fst ` set d \<Longrightarrow> setitem d k v = d @ [(k, v)]"
  unfolding setitem_def by (induction d) auto

lemma setitem_snoc_same: "k \<notin> fst ` set d \<Longrightarrow> setitem (d @ [(k, a)]) k b = d @ [(k, b)]"
  unfolding setitem_def by (induction d) auto

lemma setitem_status:
  "list_all P d \<Longrightarrow> P (k, v) \<Longrightarrow> list_all P (setitem d k v)"
  unfolding setitem_def by (induction d) auto

subsection \<open>The loop keeps its accounts\<close>

lemma map_filter_snoc:
  "List.map_filter f (xs @ [x]) = List.map_filter f xs @ (case f x of None \<Rightarrow> [] | Some y \<Rightarrow> [y])"
  by (simp add: List.map_filter_def split: option.splits)

lemma breakdown_keys:
  "fst ` set (List.map_filter (breakdown_entry e) mr) \<subseteq> fst ` set mr"
  by (force simp: List.map_filter_def breakdown_entry_def split: option.splits)

lemma consistent_empty: "consistent e empty_state"
  by (simp add: consistent_def empty_state_def success_pairs_def List.map_filter_def)

lemma record_error_consistent:
  assumes "consistent e st" "n \<notin> fst ` set (rs_model_results st)"
  shows "consistent e (record_error n err st)"
    and "map fst (rs_model_results (record_error n err st)) = map fst (rs_model_results st) @ [n]"
  using assms
  by (simp_all add: consistent_def record_error_def setitem_fresh map_filter_snoc success_pairs_def
      well_scored_def contribution_def breakdown_entry_def)

lemma record_outcome_consistent:
  assumes "consistent e st" "n \<notin> fst ` set (rs_model_results st)"
  shows "consistent e (record_outcome e n model_result st)
       \<and> map fst (rs_model_results (record_outcome e n model_result st))
           = map fst (rs_model_results st) @ [n]"
proof -
  have fresh_bd: "n \<notin> fst ` set (rs_weighted_breakdown st)"
    using assms breakdown_keys[of e "rs_model_results st"] by (auto simp: consistent_def)
  have vs: "\<And>v s. valid_score v = Some s \<Longrightarrow> 0 \<le> s \<and> s \<le> 1"
    by (auto simp: valid_score_def split: option.splits pyfloat.splits if_splits)
  show ?thesis
    using assms fresh_bd
    by (auto simp: record_outcome_def record_error_def getitem_def setitem_fresh setitem_snoc_same
        consistent_def map_filter_snoc success_pairs_def well_scored_def contribution_def
        breakdown_entry_def Let_def dest: vs split: option.splits sum.splits)
qed

lemma analyze_model_consistent:
  assumes "consistent e st" "n \<notin> fst ` set (rs_model_results st)"
  shows "consistent e (analyze_model e w t st (n, True))
       \<and> map fst (rs_model_results (analyze_model e w t st (n, True)))
           = map fst (rs_model_results st) @ [n]"
  using record_outcome_consistent[OF assms] record_error_consistent[OF assms]
  by (auto simp: analyze_model_def split: sum.splits)

lemma analyze_model_skip: "analyze_model e w t st (n, False) = st"
  by (simp add: analyze_model_def)

lemma foldl_consistent:
  assumes "distinct (map fst ms)"
  shows "consistent e (foldl (analyze_model e w t) empty_state ms)
       \<and> map fst (rs_model_results (foldl (analyze_model e w t) empty_state ms))
           = map fst (filter snd ms)"
  using assms
proof (induction ms rule: rev_induct)
  case Nil
  then show ?case by (simp add: consistent_empty) (simp add: empty_state_def)
next
  case (snoc m ms)
  obtain n l where m: "m = (n, l)" by (cases m)
  let ?st = "foldl (analyze_model e w t) empty_state ms"
  from snoc have ih: "consistent e ?st" "map fst (rs_model_results ?st) = map fst (filter snd ms)"
    by auto
  have fresh: "n \<notin> fst ` set (rs_model_results ?st)"
  proof -
    have "n \<notin> set (map fst ms)" using snoc.prems m by auto
    then have "n \<notin> set (map fst (filter snd ms))" by auto
    then show ?thesis using ih(2) by (metis set_map)
  qed
  show ?case
  proof (cases l)
    case True
    then show ?thesis using analyze_model_consistent[OF ih(1) fresh, of w t] ih(2) m by simp
  next
    case False
    then show ?thesis using ih m by (simp add: analyze_model_skip)
  qed
qed

lemma run_models_consistent:
  assumes "distinct (map fst (models e))"
  shows "consistent e (run_models e w t)"
    and "map fst (rs_model_results (run_models e w t)) = map fst (filter snd (models e))"
  using foldl_consistent[OF assms, of e w t] by (simp_all add: run_models_def)

lemma collect_risk_factors_total:
  "list_all (well_scored e) mr \<Longrightarrow> \<exists>fs. collect_risk_factors e mr = Inr fs"
proof (induction mr)
  case Nil
  then show ?case by simp
next
  case (Cons m mr)
  obtain n oc where m: "m = (n, oc)" by (cases m)
  from Cons obtain fs where fs: "collect_risk_factors e mr = Inr fs" by auto
  from Cons.prems m have "well_scored e (n, oc)" by simp
  then show ?case using fs m
    by (auto simp: well_scored_def getitem_def split: option.splits if_splits)
qed

lemma analyze_total:
  assumes "distinct (map fst (models e))"
  shows "\<exists>r. analyze_tweet_comprehensive e w t = Inr r
            \<and> model_results r = rs_model_results (run_models e w t)
            \<and> weighted_breakdown r = rs_weighted_breakdown (run_models e w t)
            \<and> composite_score r = composite_of (run_models e w t)"
proof -
  have "list_all (well_scored e) (rs_model_results (run_models e w t))"
    using run_models_consistent(1)[OF assms, of w t] by (simp add: consistent_def)
  from collect_risk_factors_total[OF this]
  obtain fs where "collect_risk_factors e (rs_model_results (run_models e w t)) = Inr fs" ..
  then show ?thesis
    by (simp add: analyze_tweet_comprehensive_def assess_overall_risk_def Let_def)
qed

lemma analyze_fields:
  assumes "analyze_tweet_comprehensive e w t = Inr r"
  shows "model_results r = rs_model_results (run_models e w t)"
    and "weighted_breakdown r = rs_weighted_breakdown (run_models e w t)"
    and "composite_score r = composite_of (run_models e w t)"
  using assms
  by (auto simp: analyze_tweet_comprehensive_def Let_def split: sum.splits)

lemma map_of_breakdown:
  assumes "distinct (map fst mr)" "(n, oc) \<in> set mr"
  shows "map_of (List.map_filter (breakdown_entry e) mr) n = map_option snd (breakdown_entry e (n, oc))"
  using assms
proof (induction mr)
  case Nil
  then show ?case by simp
next
  case (Cons m mr)
  have key: "\<And>x y. breakdown_entry e x = Some y \<Longrightarrow> fst y = fst x"
    by (auto simp: breakdown_entry_def split: option.splits)
  show ?case
  proof (cases "m = (n, oc)")
    case True
    have "n \<notin> fst ` set mr" using Cons.prems True by auto
    then have "n \<notin> fst ` set (List.map_filter (breakdown_entry e) mr)"
      using breakdown_keys[of e mr] by auto
    then have none: "map_of (List.map_filter (breakdown_entry e) mr) n = None"
      by (simp add: map_of_eq_None_iff)
    show ?thesis using True none
      by (cases "breakdown_entry e (n, oc)") (auto simp: List.map_filter_simps dest: key)
  next
    case False
    then have mem: "(n, oc) \<in> set mr" using Cons.prems by auto
    then have "n \<in> fst ` set mr" by force
    moreover have "fst m \<notin> fst ` set mr" using Cons.prems by simp
    ultimately have "fst m \<noteq> n" by auto
    moreover have "map_of (List.map_filter (breakdown_entry e) mr) n
        = map_option snd (breakdown_entry e (n, oc))"
      using Cons.IH Cons.prems mem by simp
    ultimately show ?thesis
      by (cases "breakdown_entry e m") (auto simp: List.map_filter_simps dest: key)
  qed
qed

lemma weighted_lower:
  "\<forall>p\<in>set ps. lo \<le> fst p \<and> 0 < snd p \<Longrightarrow>
     lo * sum_list (map snd ps) \<le> sum_list (map (\<lambda>p. fst p * snd p) ps)"
  for lo :: real
proof (induction ps)
  case Nil
  then show ?case by simp
next
  case (Cons p ps)
  then have "lo * snd p \<le> fst p * snd p" by (simp add: mult_right_mono)
  moreover have "lo * sum_list (map snd ps) \<le> sum_list (map (\<lambda>p. fst p * snd p) ps)"
    using Cons by simp
  ultimately show ?case by (simp add: distrib_left)
qed

lemma weighted_upper:
  "\<forall>p\<in>set ps. fst p \<le> hi \<and> 0 < snd p \<Longrightarrow>
     sum_list (map (\<lambda>p. fst p * snd p) ps) \<le> hi * sum_list (map snd ps)"
  for hi :: real
proof (induction ps)
  case Nil
  then show ?case by simp
next
  case (Cons p ps)
  then have "fst p * snd p \<le> hi * snd p" by (simp add: mult_right_mono)
  moreover have "sum_list (map (\<lambda>p. fst p * snd p) ps) \<le> hi * sum_list (map snd ps)"
    using Cons by simp
  ultimately show ?case by (simp add: distrib_left)
qed

lemma positive_total:
  "ps \<noteq> [] \<Longrightarrow> \<forall>p\<in>set ps. 0 < snd p \<Longrightarrow> 0 < sum_list (map snd ps)"
  for ps :: "(real \<times> real) list"
proof (induction ps)
  case Nil
  then show ?case by simp
next
  case (Cons p ps)
  then show ?case by (cases ps) (auto intro: add_pos_pos)
qed

lemma success_pairs_weight:
  "p \<in> set (success_pairs e mr) \<Longrightarrow> \<exists>n. map_of (weights e) n = Some (snd p)"
  by (auto simp: success_pairs_def List.map_filter_def contribution_def split: option.splits if_splits)

lemma success_pairs_scores:
  "list_all (well_scored e) mr \<Longrightarrow>
     map (\<lambda>p. Some (fst p)) (success_pairs e mr)
       = map (\<lambda>m. score (snd m)) (filter (\<lambda>m. status (snd m) = ''success'') mr)"
proof (induction mr)
  case Nil
  then show ?case by (simp add: success_pairs_def List.map_filter_simps)
next
  case (Cons m mr)
  then have ih: "map (\<lambda>p. Some (fst p)) (success_pairs e mr)
       = map (\<lambda>m. score (snd m)) (filter (\<lambda>m. status (snd m) = ''success'') mr)" by simp
  from Cons.prems have "well_scored e m" by simp
  then show ?case using ih
    by (auto simp: success_pairs_def List.map_filter_simps well_scored_def contribution_def
        split: option.splits if_splits)
qed

subsection \<open>The statuses that occur\<close>

lemma analyze_model_statuses:
  "list_all known_status (rs_model_results st) \<Longrightarrow>
     list_all known_status (rs_model_results (analyze_model e w t st m))"
  by (cases m)
    (auto simp: analyze_model_def record_outcome_def record_error_def Let_def known_status_def
      intro!: setitem_status split: sum.splits option.splits)

lemma foldl_statuses:
  "list_all known_status (rs_model_results st) \<Longrightarrow>
     list_all known_status (rs_model_results (foldl (analyze_model e w t) st ms))"
  by (induction ms arbitrary: st) (auto simp: analyze_model_statuses)

lemma run_models_statuses: "list_all known_status (rs_model_results (run_models e w t))"
  unfolding run_models_def by (rule foldl_statuses) (simp add: empty_state_def)

subsection \<open>The binary64 loop keeps its accounts\<close>

lemma success_pairs_snoc:
  "success_pairs e (mr @ [m]) =
     success_pairs e mr @ (case contribution e m of None \<Rightarrow> [] | Some p \<Rightarrow> [p])"
  by (simp add: success_pairs_def map_filter_snoc)

lemma consistent64_empty: "consistent64 e empty_state64"
  by (simp add: consistent64_def empty_state64_def success_pairs_def List.map_filter_simps sum64_def)

lemma record_error64_consistent:
  assumes "consistent64 e st" "n \<notin> fst ` set (rs64_model_results st)"
  shows "consistent64 e (record_error64 n err st)"
  using assms
  by (simp add: consistent64_def record_error64_def setitem_fresh success_pairs_snoc contribution_def)

lemma record_outcome64_consistent:
  assumes "consistent64 e st" "n \<notin> fst ` set (rs64_model_results st)"
  shows "consistent64 e (record_outcome64 e n model_result st)"
proof -
  from assms(1) have s: "weighted_sum64 st = fst (sum64 (success_pairs e (rs64_model_results st)))"
    "total_weight64 st = snd (sum64 (success_pairs e (rs64_model_results st)))"
    by (simp_all add: consistent64_def prod_eq_iff)
  show ?thesis
    using assms(2) s
    by (auto simp: record_outcome64_def record_error64_def getitem_def setitem_fresh
        setitem_snoc_same consistent64_def success_pairs_snoc contribution_def Let_def
        sum64_snoc add_pair64_def
        split: option.splits sum.splits)
qed

lemma analyze_model64_skip: "analyze_model64 e w t st (n, False) = st"
  by (simp add: analyze_model64_def)

lemma analyze_model64_consistent:
  assumes "consistent64 e st" "n \<notin> fst ` set (rs64_model_results st)"
  shows "consistent64 e (analyze_model64 e w t st (n, True))"
  using record_outcome64_consistent[OF assms] record_error64_consistent[OF assms]
  by (auto simp: analyze_model64_def split: sum.splits)

lemma record_outcome64_results:
  "rs64_model_results st' = rs_model_results st \<Longrightarrow>
   rs64_model_results (record_outcome64 e n model_result st')
     = rs_model_results (record_outcome e n model_result st)"
  by (auto simp: record_outcome64_def record_outcome_def record_error64_def record_error_def
      Let_def split: option.splits sum.splits)

lemma analyze_model64_results:
  "rs64_model_results st' = rs_model_results st \<Longrightarrow>
   rs64_model_results (analyze_model64 e w t st' m)
     = rs_model_results (analyze_model e w t st m)"
  by (cases m)
    (auto simp: analyze_model64_def analyze_model_def record_error64_def record_error_def
      record_outcome64_results split: sum.splits)

lemma foldl64_results:
  "rs64_model_results st' = rs_model_results st \<Longrightarrow>
   rs64_model_results (foldl (analyze_model64 e w t) st' ms)
     = rs_model_results (foldl (analyze_model e w t) st ms)"
  by (induction ms arbitrary: st st') (auto simp: analyze_model64_results)

lemma run_models64_results:
  "rs64_model_results (run_models64 e w t) = rs_model_results (run_models e w t)"
  unfolding run_models64_def run_models_def
  by (rule foldl64_results) (simp add: empty_state64_def empty_state_def)

lemma foldl64_consistent:
  assumes "distinct (map fst ms)"
  shows "consistent64 e (foldl (analyze_model64 e w t) empty_state64 ms)"
  using assms
proof (induction ms rule: rev_induct)
  case Nil
  then show ?case by (simp add: consistent64_empty)
next
  case (snoc m ms)
  obtain n l where m: "m = (n, l)" by (cases m)
  let ?st = "foldl (analyze_model64 e w t) empty_state64 ms"
  from snoc have ih: "consistent64 e ?st" and d: "distinct (map fst ms)" by auto
  have "rs64_model_results ?st = rs_model_results (foldl (analyze_model e w t) empty_state ms)"
    by (rule foldl64_results) (simp add: empty_state64_def empty_state_def)
  then have keys: "map fst (rs64_model_results ?st) = map fst (filter snd ms)"
    using foldl_consistent[OF d, of e w t] by simp
  have fresh: "n \<notin> fst ` set (rs64_model_results ?st)"
  proof -
    have "n \<notin> set (map fst ms)" using snoc.prems m by auto
    then have "n \<notin> set (map fst (filter snd ms))" by auto
    then show ?thesis using keys by (metis set_map)
  qed
  show ?case
  proof (cases l)
    case True
    then show ?thesis using analyze_model64_consistent[OF ih fresh, of w t] m by simp
  next
    case False
    then show ?thesis using ih m by (simp add: analyze_model64_skip)
  qed
qed

lemma run_models64_sums:
  assumes "distinct (map fst (models e))"
  shows "(weighted_sum64 (run_models64 e w t), total_weight64 (run_models64 e w t))
           = sum64 (success_pairs e (rs_model_results (run_models e w t)))"
  using foldl64_consistent[OF assms, of e w t] run_models64_results[of e w t]
  by (simp add: consistent64_def run_models64_def)

lemma success_pairs_unit:
  "list_all (well_scored e) mr \<Longrightarrow> p \<in> set (success_pairs e mr) \<Longrightarrow> 0 \<le> fst p \<and> fst p \<le> 1"
  by (auto simp: success_pairs_def List.map_filter_def contribution_def well_scored_def
      list_all_iff split: option.splits if_splits)

subsection \<open>One scorer with a complete configuration\<close>

lemma load_model_flag:
  "load_model w ms (n, p) = setitem ms n (dir_exists w p \<and> script_exists w p)"
  by (simp add: load_model_def)

lemma process_score_unit: "\<exists>s. score_of_process p = Finite s \<and> 0 \<le> s \<and> s \<le> 1"
  by (cases p) (auto simp: score_of_process_def split: stdout_float.splits pyfloat.splits elim: in_unit.elims)

text \<open>The loop body when the configuration is complete and the scorer's value is \<open>s\<close>.\<close>

lemma analyze_model_scored:
  assumes "map_of (analysis_methods e) n = Some method"
    and "map_of (score_keys e) n = Some key"
    and "map_of (weights e) n = Some wt"
    and "get_model_result e w t n method = Inr [(key, PyFloat (Finite s))]"
    and "0 \<le> s" "s \<le> 1"
  shows "analyze_model e w t st (n, True) =
     st\<lparr>rs_model_results := setitem (rs_model_results st) n
           \<lparr>score = Some s, full_result = Some [(key, PyFloat (Finite s))],
            status = ''success'', error = None\<rparr>,
        weighted_sum := weighted_sum st + s * wt,
        total_weight := total_weight st + wt,
        rs_weighted_breakdown := setitem (rs_weighted_breakdown st) n
           \<lparr>raw_score = s, weight = wt, weighted_contribution = s * wt\<rparr>\<rparr>"
  using assms
  by (simp add: analyze_model_def record_outcome_def getitem_def valid_score_def Let_def)

lemma init_config:
  "weights (init w) = init_weights" "model_paths (init w) = init_model_paths"
  "analysis_methods (init w) = init_analysis_methods" "score_keys (init w) = init_score_keys"
  by (simp_all add: init_def load_models_def)

subsection \<open>The scenarios, evaluated\<close>

lemmas registry_defs = init_def load_models_def load_model_flag setitem_def
  init_weights_def init_model_paths_def init_analysis_methods_def init_score_keys_def

lemmas loop_defs = run_models_def analyze_model_def get_model_result_def record_outcome_def
  record_error_def getitem_def score_of_process_def valid_score_def empty_state_def
  composite_of_def

lemmas report_defs = analyze_tweet_comprehensive_def assess_overall_risk_def classify_def
  sort_by_impact_def generate_summary_def successful_models_def
  recommendations_for_def

text \<open>The floats of the literals and products that the scenarios need.\<close>

lemma d08: "round64 (3602879701896397 / 4503599627370496) = Num (3602879701896397 / 4503599627370496)"
  by (rule round64_eval[where k = "- 53"]) (use huge_gt_1 in \<open>simp_all add: round_even_def\<close>)

lemma d07: "round64 (7 / 10) = Num (3152519739159347 / 4503599627370496)"
  by (rule round64_eval[where k = "- 53"]) (use huge_gt_1 in \<open>simp_all add: round_even_def\<close>)

lemma c56: "round64 (3602879701896397 / 4503599627370496 * (3152519739159347 / 4503599627370496))
    = Num (5044031582654955 / 9007199254740992)"
  by (rule round64_eval[where k = "- 53"]) (use huge_gt_1 in \<open>simp_all add: round_even_def\<close>)

lemma c7999: "round64 (5044031582654955 / 9007199254740992 / (3152519739159347 / 4503599627370496))
    = Num (7205759403792793 / 9007199254740992)"
  by (rule round64_eval[where k = "- 53"]) (use huge_gt_1 in \<open>simp_all add: round_even_def\<close>)

lemma float_0_8: "round64 (4 / 5) = Num (3602879701896397 / 4503599627370496)"
  by (rule round64_eval[where k = "- 53"]) (use huge_gt_1 in \<open>simp_all add: round_even_def\<close>)

lemma float_0_6: "round64 (3 / 5) = Num (5404319552844595 / 9007199254740992)"
  by (rule round64_eval[where k = "- 53"]) (use huge_gt_1 in \<open>simp_all add: round_even_def\<close>)

lemma float_0_75: "round64 (3 / 4) = Num (3 / 4)"
  by (rule round64_eval[where k = "- 53"]) (use huge_gt_1 in \<open>simp_all add: round_even_def\<close>)

lemma float_15_16: "round64 (15 / 16) = Num (15 / 16)"
  by (rule round64_eval[where k = "- 53"]) (use huge_gt_1 in \<open>simp_all add: round_even_def\<close>)

lemma float_0_5: "round64 (1 / 2) = Num (1 / 2)"
  by (rule round64_eval[where k = "- 53"]) (use huge_gt_1 in \<open>simp_all add: round_even_def\<close>)

lemma product_0_6_0_6:
  "round64 (5404319552844595 / 9007199254740992 * (5404319552844595 / 9007199254740992))
     = Num (3242591731706757 / 9007199254740992)"
  by (rule round64_eval[where k = "- 54"]) (use huge_gt_1 in \<open>simp_all add: round_even_def\<close>)

lemma product_0_75_0_8:
  "round64 (3 / 4 * (3602879701896397 / 4503599627370496))
     = Num (1351079888211149 / 2251799813685248)"
  by (rule round64_eval[where k = "- 53"]) (use huge_gt_1 in \<open>simp_all add: round_even_def\<close>)

lemma impact_value:
  "round64 s = Num a \<Longrightarrow> round64 wt = Num b \<Longrightarrow> round64 (a * b) = Num c \<Longrightarrow>
     impact \<lparr>model = m, factor_score = s, factor_weight = wt\<rparr> = c"
  by (simp add: impact_def ext_def)

lemma impact_0_8_1:
  "impact \<lparr>model = m, factor_score = 4 / 5, factor_weight = 1\<rparr>
     = 3602879701896397 / 4503599627370496"
  by (rule impact_value[OF float_0_8 round64_1]) (simp add: d08)

lemma impact_0_6_0_6:
  "impact \<lparr>model = m, factor_score = 3 / 5, factor_weight = 3 / 5\<rparr>
     = 3242591731706757 / 9007199254740992"
  by (rule impact_value[OF float_0_6 float_0_6 product_0_6_0_6])

lemma impact_1_0_6:
  "impact \<lparr>model = m, factor_score = 1, factor_weight = 3 / 5\<rparr>
     = 5404319552844595 / 9007199254740992"
  by (rule impact_value[OF round64_1 float_0_6])
    (simp add: round64_idem[OF _ float_0_6])

lemma impact_0_75_0_8:
  "impact \<lparr>model = m, factor_score = 3 / 4, factor_weight = 4 / 5\<rparr>
     = 1351079888211149 / 2251799813685248"
  by (rule impact_value[OF float_0_75 float_0_8 product_0_75_0_8])

lemma impact_15_16_1:
  "impact \<lparr>model = m, factor_score = 15 / 16, factor_weight = 1\<rparr> = 15 / 16"
  by (rule impact_value[OF float_15_16 round64_1]) (simp add: float_15_16)

lemma scenario_1_models: "models (init scenario_1) =
   [(''hyperbole_falsehood'', False), (''clickbait'', False), (''engagement_mismatch'', False),
    (''content_recycling'', False), (''coordinated_network'', True),
    (''emotive_manipulation'', True), (''rapid_engagement_spike'', False),
    (''generic_comment'', True), (''authority_signal'', False), (''reply_bait'', False)]"
  by (simp add: registry_defs scenario_def scenario_1_def)

lemma scenario_1_state: "run_models (init scenario_1) scenario_1 ''1'' =
   \<lparr>rs_model_results = model_results scenario_1_report,
    rs_weighted_breakdown = weighted_breakdown scenario_1_report,
    total_weight = 22/10, weighted_sum = 14/10\<rparr>"
  by (simp add: registry_defs scenario_def scenario_1_def loop_defs scenario_1_report_def)

lemma scenario_1_result:
  "analyze_tweet_comprehensive (init scenario_1) scenario_1 ''1'' = Inr scenario_1_report"
  by (simp add: registry_defs loop_defs report_defs scenario_def scenario_1_def
      scenario_1_report_def Let_def impact_0_8_1 impact_0_6_0_6)

lemma out_of_range_result:
  "analyze_tweet_comprehensive (init out_of_range_world) out_of_range_world ''1'' = Inr two_model_report"
  by (simp add: registry_defs loop_defs report_defs scenario_def out_of_range_world_def two_model_report_def Let_def)

lemma timeout_result:
  "analyze_tweet_comprehensive (init timeout_world) timeout_world ''1'' = Inr two_model_report"
  by (simp add: registry_defs loop_defs report_defs scenario_def timeout_world_def two_model_report_def Let_def)




lemma rounding_world_state:
  "run_models64 (init rounding_world) rounding_world ''1'' =
    \<lparr>rs64_model_results =
       [(''authority_signal'',
         \<lparr>score = Some (3602879701896397 / 4503599627370496),
          full_result = Some [(''authority_score'',
             PyFloat (Finite (3602879701896397 / 4503599627370496)))],
          status = ''success'', error = None\<rparr>)],
     rs64_weighted_breakdown =
       [(''authority_signal'',
         \<lparr>raw_score64 = 3602879701896397 / 4503599627370496,
          weight64 = Num (3152519739159347 / 4503599627370496),
          weighted_contribution64 = Num (5044031582654955 / 9007199254740992)\<rparr>)],
     total_weight64 = Num (3152519739159347 / 4503599627370496),
     weighted_sum64 = Num (5044031582654955 / 9007199254740992)\<rparr>"
proof -
  have w: "round64 (7 / 10) = Num (3152519739159347 / 4503599627370496)" by (rule d07)
  have wi: "round64 (3152519739159347 / 4503599627370496) = Num (3152519739159347 / 4503599627370496)"
    by (rule round64_idem[OF _ d07]) simp
  have ci: "round64 (5044031582654955 / 9007199254740992) = Num (5044031582654955 / 9007199254740992)"
    by (rule round64_idem[OF _ c56]) simp
  have prod: "fmul (round64 (3602879701896397 / 4503599627370496)) (round64 (7 / 10))
      = Num (5044031582654955 / 9007199254740992)"
    by (simp only: d08 w fmul.simps c56)
  have ws: "fadd (Num 0) (Num (5044031582654955 / 9007199254740992))
      = Num (5044031582654955 / 9007199254740992)"
    by (simp only: fadd.simps add_0 ci)
  have tw: "fadd (Num 0) (Num (3152519739159347 / 4503599627370496))
      = Num (3152519739159347 / 4503599627370496)"
    by (simp only: fadd.simps add_0 wi)
  have "run_models64 (init rounding_world) rounding_world ''1'' =
    \<lparr>rs64_model_results =
       [(''authority_signal'',
         \<lparr>score = Some (3602879701896397 / 4503599627370496),
          full_result = Some [(''authority_score'',
             PyFloat (Finite (3602879701896397 / 4503599627370496)))],
          status = ''success'', error = None\<rparr>)],
     rs64_weighted_breakdown =
       [(''authority_signal'',
         \<lparr>raw_score64 = 3602879701896397 / 4503599627370496,
          weight64 = round64 (7 / 10),
          weighted_contribution64 =
            fmul (round64 (3602879701896397 / 4503599627370496)) (round64 (7 / 10))\<rparr>)],
     total_weight64 = fadd (Num 0) (round64 (7 / 10)),
     weighted_sum64 = fadd (Num 0)
        (fmul (round64 (3602879701896397 / 4503599627370496)) (round64 (7 / 10)))\<rparr>"
    by (simp add: registry_defs scenario_def rounding_world_def run_models64_def
        analyze_model64_def get_model_result_def record_outcome64_def getitem_def
        score_of_process_def valid_score_def empty_state64_def Let_def)
  then show ?thesis unfolding prod unfolding w unfolding ws tw .
qed

lemma fdiv_num: "b \<noteq> 0 \<Longrightarrow> fdiv (Num a) (Num b) = Inr (round64 (a / b))"
  by simp

lemma rounding_world_composite:
  "composite_of64 (run_models64 (init rounding_world) rounding_world ''1'')
     = Inr (Num (7205759403792793 / 9007199254740992))"
proof -
  have nz: "(3152519739159347 / 4503599627370496 :: real) \<noteq> 0" by simp
  have g: "fgt0 (Num (3152519739159347 / 4503599627370496))" by simp
  show ?thesis
    unfolding composite_of64_def rounding_world_state
    by (simp only: run_state64.simps g if_True fdiv_num[OF nz] c7999)
qed

subsection \<open>Scores and statuses\<close>

text \<open>
  C10. In a returned result an entry with status success has a score in the unit
  interval and an entry of the weighted breakdown with that score, the model's weight
  and their product; an entry with any other status has a null score and no entry in
  the breakdown. So the score is a number exactly when the status is success.
\<close>

theorem score_iff_success:
  assumes "distinct (map fst (models e))"
    and "analyze_tweet_comprehensive e w t = Inr r"
    and "(n, oc) \<in> set (model_results r)"
  shows "(status oc = ''success'' \<longrightarrow>
           (\<exists>s wt. score oc = Some s \<and> 0 \<le> s \<and> s \<le> 1 \<and> map_of (weights e) n = Some wt
              \<and> map_of (weighted_breakdown r) n =
                  Some \<lparr>raw_score = s, weight = wt, weighted_contribution = s * wt\<rparr>))
       \<and> (status oc \<noteq> ''success'' \<longrightarrow>
           score oc = None \<and> map_of (weighted_breakdown r) n = None)"
proof -
  let ?st = "run_models e w t"
  have c: "consistent e ?st" and k: "map fst (rs_model_results ?st) = map fst (filter snd (models e))"
    using run_models_consistent[OF assms(1)] by auto
  have d: "distinct (map fst (rs_model_results ?st))"
    using k assms(1) by (simp add: distinct_map_filter)
  have mem: "(n, oc) \<in> set (rs_model_results ?st)"
    using assms(2,3) analyze_fields(1) by metis
  have ws: "well_scored e (n, oc)"
    using c mem by (auto simp: consistent_def list_all_iff)
  have bd: "map_of (weighted_breakdown r) n = map_option snd (breakdown_entry e (n, oc))"
    using map_of_breakdown[OF d mem, of e] c analyze_fields(2)[OF assms(2)]
    by (simp add: consistent_def)
  show ?thesis using ws bd
    by (auto simp: well_scored_def breakdown_entry_def contribution_def split: option.splits if_splits)
qed

theorem score_iff_success_witness:
  "distinct (map fst (models (init scenario_1)))
   \<and> analyze_tweet_comprehensive (init scenario_1) scenario_1 ''1'' = Inr scenario_1_report
   \<and> map_of (weighted_breakdown scenario_1_report) ''coordinated_network'' =
         Some \<lparr>raw_score = 8/10, weight = 1, weighted_contribution = 8/10 * 1\<rparr>"
proof -
  have d: "distinct (map fst (models (init scenario_1)))"
    by (simp add: scenario_1_models)
  have m: "(''coordinated_network'',
            \<lparr>score = Some (8/10),
             full_result = Some [(''coordination_score'', PyFloat (Finite (8/10)))],
             status = ''success'', error = None\<rparr>) \<in> set (model_results scenario_1_report)"
    by (simp add: scenario_1_report_def)
  have "\<exists>s wt. Some (8/10) = Some s \<and> 0 \<le> s \<and> s \<le> 1
          \<and> map_of (weights (init scenario_1)) ''coordinated_network'' = Some wt
          \<and> map_of (weighted_breakdown scenario_1_report) ''coordinated_network'' =
               Some \<lparr>raw_score = s, weight = wt, weighted_contribution = s * wt\<rparr>"
    using score_iff_success[OF d scenario_1_result m] by simp
  then have "map_of (weighted_breakdown scenario_1_report) ''coordinated_network'' =
         Some \<lparr>raw_score = 8/10, weight = 1, weighted_contribution = 8/10 * 1\<rparr>"
    by (auto simp: init_config init_weights_def)
  with d scenario_1_result show ?thesis by blast
qed

subsection \<open>Which models are reported\<close>

text \<open>
  C3, as the claim states it, fails: a model that is not loaded is skipped by the loop
  and has no outcome at all. With three of the ten models installed the result lists
  three outcomes, none for \<open>clickbait\<close>, and no status \<open>skipped_unloaded\<close> occurs.
\<close>

theorem unloaded_model_dropped:
  "analyze_tweet_comprehensive (init scenario_1) scenario_1 ''1'' = Inr scenario_1_report
   \<and> (''clickbait'', False) \<in> set (models (init scenario_1))
   \<and> map_of (model_results scenario_1_report) ''clickbait'' = None
   \<and> length (models (init scenario_1)) = 10
   \<and> length (model_results scenario_1_report) = 3
   \<and> ''skipped_unloaded'' \<notin> set (map (status \<circ> snd) (model_results scenario_1_report))"
  using scenario_1_result
  by (simp add: scenario_1_models) (simp add: scenario_1_report_def)

text \<open>
  C3, amended. Every analysis returns a result in which the loaded models, and only
  they, have exactly one outcome each, in registration order; a model that is not
  loaded has no entry in the model results and none in the weighted breakdown.
\<close>

theorem loaded_models_reported:
  assumes "distinct (map fst (models e))"
  shows "\<exists>r. analyze_tweet_comprehensive e w t = Inr r
           \<and> map fst (model_results r) = map fst (filter snd (models e))
           \<and> distinct (map fst (model_results r))
           \<and> (\<forall>n. (n, False) \<in> set (models e) \<longrightarrow>
                  map_of (model_results r) n = None \<and> map_of (weighted_breakdown r) n = None)"
proof -
  let ?st = "run_models e w t"
  obtain r where r: "analyze_tweet_comprehensive e w t = Inr r"
    "model_results r = rs_model_results ?st" "weighted_breakdown r = rs_weighted_breakdown ?st"
    using analyze_total[OF assms, of w t] by auto
  have c: "consistent e ?st" and k: "map fst (rs_model_results ?st) = map fst (filter snd (models e))"
    using run_models_consistent[OF assms] by auto
  have d: "distinct (map fst (model_results r))"
    using k r assms by (simp add: distinct_map_filter)
  have "map_of (model_results r) n = None \<and> map_of (weighted_breakdown r) n = None"
    if "(n, False) \<in> set (models e)" for n
  proof -
    have "n \<notin> fst ` set (filter snd (models e))"
    proof
      assume "n \<in> fst ` set (filter snd (models e))"
      then have "(n, True) \<in> set (models e)" by auto
      with that assms show False using eq_key_imp_eq_value by fastforce
    qed
    then have a: "n \<notin> fst ` set (model_results r)" using k r by (metis set_map)
    then have "n \<notin> fst ` set (weighted_breakdown r)"
      using c r breakdown_keys[of e "rs_model_results ?st"] by (auto simp: consistent_def)
    with a show ?thesis by (simp add: map_of_eq_None_iff)
  qed
  with r k d show ?thesis by auto
qed

theorem loaded_models_reported_witness:
  "distinct (map fst (models (init scenario_1)))
   \<and> map fst (model_results scenario_1_report) =
        [''coordinated_network'', ''emotive_manipulation'', ''generic_comment'']
   \<and> distinct (map fst (model_results scenario_1_report))"
proof -
  have d: "distinct (map fst (models (init scenario_1)))"
    by (simp add: scenario_1_models)
  from loaded_models_reported[OF d, of scenario_1 "''1''"]
  obtain r where r: "analyze_tweet_comprehensive (init scenario_1) scenario_1 ''1'' = Inr r"
    and k: "map fst (model_results r) = map fst (filter snd (models (init scenario_1)))"
    and u: "distinct (map fst (model_results r))"
    by blast
  from r scenario_1_result have "r = scenario_1_report" by simp
  with k u d show ?thesis by (simp add: scenario_1_models)
qed

subsection \<open>The composite score\<close>

lemma composite_of64_sums:
  "composite_of64 st = composite_of_sums (weighted_sum64 st, total_weight64 st)"
  by (simp add: composite_of64_def composite_of_sums_def)

lemma round64_mono_num:
  assumes "0 \<le> x" "x \<le> y" "round64 x = Num a" "round64 y = Num b"
  shows "a \<le> b"
  using ext_round64_mono[OF assms(1,2)] by (simp add: assms(3,4) ext_def)

lemma add_pair64_mono:
  assumes acc: "tw = PosInf \<or>
      (\<exists>a a' t. ws = Num a \<and> ws' = Num a' \<and> tw = Num t \<and> 0 \<le> a \<and> a \<le> a' \<and> a' \<le> t)"
    and p: "0 \<le> s" "s \<le> s'" "s' \<le> 1" "0 < wt"
    and res: "add_pair64 (ws, tw) (s, wt) = (ws1, tw1)" "add_pair64 (ws', tw) (s', wt) = (ws1', tw1')"
  shows "tw1' = tw1 \<and> (tw1 = PosInf \<or>
      (\<exists>a a' t. ws1 = Num a \<and> ws1' = Num a' \<and> tw1 = Num t \<and> 0 \<le> a \<and> a \<le> a' \<and> a' \<le> t))"
proof -
  have tweq: "tw1' = tw1" using res by (auto simp: add_pair64_def)
  have b: "tw = PosInf \<or> (\<exists>a t. ws' = Num a \<and> tw = Num t \<and> 0 \<le> a \<and> a \<le> t)"
    using acc by auto
  have s'0: "0 \<le> s'" using p by linarith
  from add_pair64_bounds[OF b s'0 p(3,4) res(2)] tweq
  have up: "tw1 = PosInf \<or> (\<exists>a t. ws1' = Num a \<and> tw1 = Num t \<and> 0 \<le> a \<and> a \<le> t)" by simp
  show ?thesis
  proof (cases "tw1 = PosInf")
    case True
    with tweq show ?thesis by simp
  next
    case False
    with up obtain a1' t1 where u: "ws1' = Num a1'" "tw1 = Num t1" "0 \<le> a1'" "a1' \<le> t1" by blast
    have tw1: "tw1 = fadd tw (round64 wt)" using res(1) by (auto simp: add_pair64_def)
    have "tw \<noteq> PosInf"
    proof
      assume "tw = PosInf"
      then have "tw1 = PosInf \<or> tw1 = NaN" unfolding tw1 by (cases "round64 wt") auto
      with u(2) show False by auto
    qed
    with acc obtain a a' t where at: "ws = Num a" "ws' = Num a'" "tw = Num t" "0 \<le> a" "a \<le> a'" "a' \<le> t"
      by blast
    from round64_nonneg_cases[of wt] p(4)
    consider "round64 wt = PosInf" | w1 where "round64 wt = Num w1" "0 \<le> w1" by auto
    then show ?thesis
    proof cases
      case 1
      then have "tw1 = PosInf" unfolding tw1 at by simp
      with False show ?thesis by simp
    next
      case 2
      have w1d: "round64 w1 = Num w1" using round64_idem[OF _ 2(1)] p(4) by simp
      from round64_unit[OF p(1)] p obtain s1 where s1: "round64 s = Num s1" "0 \<le> s1" "s1 \<le> 1" by auto
      from round64_unit[OF s'0 p(3)] obtain s1' where s1': "round64 s' = Num s1'" "0 \<le> s1'" "s1' \<le> 1"
        by auto
      have ss: "s1 \<le> s1'" using round64_mono_num[OF p(1,2) s1(1) s1'(1)] .
      have "0 \<le> s1' * w1" "s1' * w1 \<le> w1" using s1' 2(2) by (auto simp: mult_left_le_one_le)
      from round64_le_num[OF this w1d] obtain c' where c': "round64 (s1' * w1) = Num c'" "0 \<le> c'" "c' \<le> w1"
        by blast
      have "0 \<le> s1 * w1" "s1 * w1 \<le> s1' * w1" using s1 ss 2(2) by (auto simp: mult_right_mono)
      from round64_le_num[OF this c'(1)] obtain c where c: "round64 (s1 * w1) = Num c" "0 \<le> c" "c \<le> c'"
        by blast
      have e1: "ws1 = round64 (a + c)" using res(1) by (auto simp: add_pair64_def at s1 2 c)
      have e1': "ws1' = round64 (a' + c')" using res(2) by (auto simp: add_pair64_def at s1' 2 c')
      have "0 \<le> a + c" "a + c \<le> a' + c'" using at c by auto
      moreover have "round64 (a' + c') = Num a1'" using e1' u(1) by simp
      ultimately obtain a1 where "round64 (a + c) = Num a1" "0 \<le> a1" "a1 \<le> a1'"
        using round64_le_num by blast
      with e1 u tweq show ?thesis by auto
    qed
  qed
qed

lemma constant_scores_snoc:
  "constant_scores v (ps @ [p]) = constant_scores v ps @ [(v, snd p)]"
  by (simp add: constant_scores_def)

lemma sum64_below_constant:
  assumes "\<forall>p \<in> set ps. 0 \<le> fst p \<and> fst p \<le> v \<and> 0 < snd p" "v \<le> 1"
  shows "snd (sum64 (constant_scores v ps)) = snd (sum64 ps) \<and>
     (snd (sum64 ps) = PosInf \<or>
       (\<exists>a a' t. fst (sum64 ps) = Num a \<and> fst (sum64 (constant_scores v ps)) = Num a'
           \<and> snd (sum64 ps) = Num t \<and> 0 \<le> a \<and> a \<le> a' \<and> a' \<le> t))"
  using assms(1)
proof (induction ps rule: rev_induct)
  case Nil
  then show ?case by (simp add: sum64_def constant_scores_def)
next
  case (snoc p ps)
  then have ih: "snd (sum64 (constant_scores v ps)) = snd (sum64 ps)"
    "snd (sum64 ps) = PosInf \<or>
       (\<exists>a a' t. fst (sum64 ps) = Num a \<and> fst (sum64 (constant_scores v ps)) = Num a'
           \<and> snd (sum64 ps) = Num t \<and> 0 \<le> a \<and> a \<le> a' \<and> a' \<le> t)"
    and pp: "0 \<le> fst p" "fst p \<le> v" "0 < snd p" by auto
  have r1: "add_pair64 (fst (sum64 ps), snd (sum64 ps)) (fst p, snd p)
       = (fst (sum64 (ps @ [p])), snd (sum64 (ps @ [p])))"
    by (simp add: sum64_snoc)
  have r2: "add_pair64 (fst (sum64 (constant_scores v ps)), snd (sum64 ps)) (v, snd p)
       = (fst (sum64 (constant_scores v (ps @ [p]))), snd (sum64 (constant_scores v (ps @ [p]))))"
    by (simp add: constant_scores_snoc sum64_snoc ih(1)[symmetric])
  from add_pair64_mono[OF ih(2) pp(1,2) assms(2) pp(3) r1 r2] show ?case .
qed

lemma sum64_above_constant:
  assumes "\<forall>p \<in> set ps. v \<le> fst p \<and> fst p \<le> 1 \<and> 0 < snd p" "0 \<le> v"
  shows "snd (sum64 (constant_scores v ps)) = snd (sum64 ps) \<and>
     (snd (sum64 ps) = PosInf \<or>
       (\<exists>a a' t. fst (sum64 (constant_scores v ps)) = Num a \<and> fst (sum64 ps) = Num a'
           \<and> snd (sum64 ps) = Num t \<and> 0 \<le> a \<and> a \<le> a' \<and> a' \<le> t))"
  using assms(1)
proof (induction ps rule: rev_induct)
  case Nil
  then show ?case by (simp add: sum64_def constant_scores_def)
next
  case (snoc p ps)
  then have ih: "snd (sum64 (constant_scores v ps)) = snd (sum64 ps)"
    "snd (sum64 ps) = PosInf \<or>
       (\<exists>a a' t. fst (sum64 (constant_scores v ps)) = Num a \<and> fst (sum64 ps) = Num a'
           \<and> snd (sum64 ps) = Num t \<and> 0 \<le> a \<and> a \<le> a' \<and> a' \<le> t)"
    and pp: "v \<le> fst p" "fst p \<le> 1" "0 < snd p" by auto
  have r1: "add_pair64 (fst (sum64 ps), snd (sum64 ps)) (fst p, snd p)
       = (fst (sum64 (ps @ [p])), snd (sum64 (ps @ [p])))"
    by (simp add: sum64_snoc)
  have r2: "add_pair64 (fst (sum64 (constant_scores v ps)), snd (sum64 ps)) (v, snd p)
       = (fst (sum64 (constant_scores v (ps @ [p]))), snd (sum64 (constant_scores v (ps @ [p]))))"
    by (simp add: constant_scores_snoc sum64_snoc ih(1)[symmetric])
  from add_pair64_mono[OF ih(2) assms(2) pp(1,2,3) r2 r1] show ?case by auto
qed

lemma composite_of_sums_mono:
  assumes "0 \<le> a" "a \<le> a'" "a' \<le> t"
  shows "\<exists>c c'. composite_of_sums (Num a, Num t) = Inr (Num c)
       \<and> composite_of_sums (Num a', Num t) = Inr (Num c') \<and> 0 \<le> c \<and> c \<le> c' \<and> c' \<le> 1"
proof (cases "t > 0")
  case True
  have q: "0 \<le> a / t" "a / t \<le> a' / t" "0 \<le> a' / t" "a' / t \<le> 1"
    using assms True by (auto simp: divide_right_mono)
  from round64_unit[OF q(3,4)] obtain c' where c': "round64 (a' / t) = Num c'" "0 \<le> c'" "c' \<le> 1" by blast
  from round64_le_num[OF q(1,2) c'(1)] obtain c where c: "round64 (a / t) = Num c" "0 \<le> c" "c \<le> c'"
    by blast
  show ?thesis using True c c' by (auto simp: composite_of_sums_def)
next
  case False
  then show ?thesis by (auto simp: composite_of_sums_def)
qed

text \<open>
  C4, as the claim states it, fails: the composite score is a quotient of rounded sums
  of rounded products, and the rounding can take it out of the range of the successful
  scores. With one successful model, of score 0.8 and weight 0.7, the product is
  0.5599999999999999 and the composite score 0.7999999999999999, below the only
  successful score.
\<close>

theorem rounded_composite_below_minimum:
  "rs64_model_results (run_models64 (init rounding_world) rounding_world ''1'') =
     [(''authority_signal'',
       \<lparr>score = Some (3602879701896397 / 4503599627370496),
        full_result = Some [(''authority_score'',
           PyFloat (Finite (3602879701896397 / 4503599627370496)))],
        status = ''success'', error = None\<rparr>)]
   \<and> composite_of64 (run_models64 (init rounding_world) rounding_world ''1'')
        = Inr (Num (7205759403792793 / 9007199254740992))
   \<and> (7205759403792793 / 9007199254740992 :: real) < 3602879701896397 / 4503599627370496"
  using rounding_world_composite by (simp add: rounding_world_state)

text \<open>
  C4, amended. For every run with positive weights the composite score is the binary64
  value of the weighted mean over the outcomes with status success, and over no other:
  the quotient of the two sums that add, in registration order, the rounded products
  of score and weight, and the weights. When no model succeeds it is exactly 0.0. When
  the sum of the weights does not overflow it lies between 0 and 1, and between the
  values that the same computation gives when every successful score is replaced by
  the least, and by the greatest, of them. The weighted mean of the same scores and
  weights in exact arithmetic lies between the least and the greatest successful
  score; the computed value can miss that range by its rounding.
\<close>

theorem composite_is_rounded_weighted_mean:
  assumes "distinct (map fst (models e))"
    and "\<forall>m \<in> set (weights e). 0 < snd m"
  shows "\<exists>ps. ps = success_pairs e (rs64_model_results (run_models64 e w t))
     \<and> map (\<lambda>p. Some (fst p)) ps
         = map (\<lambda>m. score (snd m))
             (filter (\<lambda>m. status (snd m) = ''success'') (rs64_model_results (run_models64 e w t)))
     \<and> (weighted_sum64 (run_models64 e w t), total_weight64 (run_models64 e w t)) = sum64 ps
     \<and> (ps = [] \<longrightarrow> composite_of64 (run_models64 e w t) = Inr (Num 0))
     \<and> (total_weight64 (run_models64 e w t) \<noteq> PosInf \<longrightarrow>
           (\<exists>c. composite_of64 (run_models64 e w t) = Inr (Num c) \<and> 0 \<le> c \<and> c \<le> 1))
     \<and> (ps \<noteq> [] \<and> total_weight64 (run_models64 e w t) \<noteq> PosInf \<longrightarrow>
           (\<exists>lo c hi.
               composite_of_sums (sum64 (constant_scores (Min (fst ` set ps)) ps)) = Inr (Num lo)
             \<and> composite_of64 (run_models64 e w t) = Inr (Num c)
             \<and> composite_of_sums (sum64 (constant_scores (Max (fst ` set ps)) ps)) = Inr (Num hi)
             \<and> 0 \<le> lo \<and> lo \<le> c \<and> c \<le> hi \<and> hi \<le> 1))
     \<and> (ps \<noteq> [] \<longrightarrow>
           0 < sum_list (map snd ps)
         \<and> Min (fst ` set ps) \<le> sum_list (map (\<lambda>p. fst p * snd p) ps) / sum_list (map snd ps)
         \<and> sum_list (map (\<lambda>p. fst p * snd p) ps) / sum_list (map snd ps) \<le> Max (fst ` set ps))"
proof -
  let ?st = "run_models64 e w t"
  define ps where "ps = success_pairs e (rs64_model_results ?st)"
  have mr: "rs64_model_results ?st = rs_model_results (run_models e w t)"
    by (rule run_models64_results)
  have c: "consistent e (run_models e w t)" using run_models_consistent[OF assms(1)] by auto
  then have wsc: "list_all (well_scored e) (rs64_model_results ?st)"
    by (simp add: consistent_def mr)
  have sums: "(weighted_sum64 ?st, total_weight64 ?st) = sum64 ps"
    using run_models64_sums[OF assms(1), of w t] by (simp add: ps_def mr)
  have sc: "map (\<lambda>p. Some (fst p)) ps
         = map (\<lambda>m. score (snd m))
             (filter (\<lambda>m. status (snd m) = ''success'') (rs64_model_results ?st))"
    unfolding ps_def using success_pairs_scores[OF wsc] .
  have pos: "\<forall>p\<in>set ps. 0 < snd p"
    using success_pairs_weight[of _ e "rs64_model_results ?st"] assms(2) unfolding ps_def
    by (metis map_of_SomeD snd_conv)
  have unit: "\<forall>p\<in>set ps. 0 \<le> fst p \<and> fst p \<le> 1 \<and> 0 < snd p"
    using success_pairs_unit[OF wsc] pos unfolding ps_def by blast
  have empty: "composite_of64 ?st = Inr (Num 0)" if "ps = []"
  proof -
    from sums that have "total_weight64 ?st = Num 0" by (simp add: sum64_def)
    then show ?thesis by (simp add: composite_of64_def)
  qed
  have finite: "\<exists>c. composite_of64 ?st = Inr (Num c) \<and> 0 \<le> c \<and> c \<le> 1"
    if fin: "total_weight64 ?st \<noteq> PosInf"
  proof -
    from sum64_bounds[OF unit] sums fin
    obtain a t' where "weighted_sum64 ?st = Num a" "total_weight64 ?st = Num t'" "0 \<le> a" "a \<le> t'"
      by (metis fst_conv snd_conv)
    from composite64_unit[OF this(2,1,3,4)] show ?thesis by (simp add: composite_of64_def)
  qed
  have exact: "0 < sum_list (map snd ps)
         \<and> Min (fst ` set ps) \<le> sum_list (map (\<lambda>p. fst p * snd p) ps) / sum_list (map snd ps)
         \<and> sum_list (map (\<lambda>p. fst p * snd p) ps) / sum_list (map snd ps) \<le> Max (fst ` set ps)"
    if ne: "ps \<noteq> []"
  proof -
    have tpos: "0 < sum_list (map snd ps)" using positive_total[OF ne pos] .
    have "\<forall>p\<in>set ps. Min (fst ` set ps) \<le> fst p \<and> 0 < snd p" using pos by simp
    from weighted_lower[OF this]
    have lo: "Min (fst ` set ps) \<le> sum_list (map (\<lambda>p. fst p * snd p) ps) / sum_list (map snd ps)"
      using tpos by (simp add: pos_le_divide_eq)
    have "\<forall>p\<in>set ps. fst p \<le> Max (fst ` set ps) \<and> 0 < snd p" using pos by simp
    from weighted_upper[OF this]
    have hi: "sum_list (map (\<lambda>p. fst p * snd p) ps) / sum_list (map snd ps) \<le> Max (fst ` set ps)"
      using tpos by (simp add: pos_divide_le_eq)
    from tpos lo hi show ?thesis by simp
  qed
  have between: "\<exists>lo c hi.
               composite_of_sums (sum64 (constant_scores (Min (fst ` set ps)) ps)) = Inr (Num lo)
             \<and> composite_of64 ?st = Inr (Num c)
             \<and> composite_of_sums (sum64 (constant_scores (Max (fst ` set ps)) ps)) = Inr (Num hi)
             \<and> 0 \<le> lo \<and> lo \<le> c \<and> c \<le> hi \<and> hi \<le> 1"
    if ne: "ps \<noteq> []" and fin: "total_weight64 ?st \<noteq> PosInf"
  proof -
    let ?lo = "Min (fst ` set ps)" and ?hi = "Max (fst ` set ps)"
    have fs: "finite (fst ` set ps)" "fst ` set ps \<noteq> {}" using ne by auto
    have "?lo \<in> fst ` set ps" "?hi \<in> fst ` set ps" using Min_in[OF fs] Max_in[OF fs] by auto
    then have range: "0 \<le> ?lo" "?hi \<le> 1" using unit by auto
    have tw: "snd (sum64 ps) = total_weight64 ?st" and ws: "fst (sum64 ps) = weighted_sum64 ?st"
      using sums by (simp_all add: prod_eq_iff)
    have "\<forall>p \<in> set ps. ?lo \<le> fst p \<and> fst p \<le> 1 \<and> 0 < snd p" using unit fs by simp
    from sum64_above_constant[OF this range(1)] fin tw
    obtain a a' t' where lo: "sum64 (constant_scores ?lo ps) = (Num a, Num t')"
      "sum64 ps = (Num a', Num t')" "0 \<le> a" "a \<le> a'" "a' \<le> t'"
      by (auto simp: prod_eq_iff)
    have "\<forall>p \<in> set ps. 0 \<le> fst p \<and> fst p \<le> ?hi \<and> 0 < snd p" using unit fs by simp
    from sum64_below_constant[OF this range(2)] fin tw lo(2)
    obtain a'' where hi: "sum64 (constant_scores ?hi ps) = (Num a'', Num t')" "a' \<le> a''" "a'' \<le> t'"
      by (auto simp: prod_eq_iff)
    from composite_of_sums_mono[OF lo(3,4,5)] obtain l c where
      l: "composite_of_sums (Num a, Num t') = Inr (Num l)"
        "composite_of_sums (Num a', Num t') = Inr (Num c)" "0 \<le> l" "l \<le> c"
      by blast
    have "0 \<le> a'" using lo by linarith
    from composite_of_sums_mono[OF this hi(2,3)] l(2) obtain h where
      h: "composite_of_sums (Num a'', Num t') = Inr (Num h)" "c \<le> h" "h \<le> 1"
      by auto
    have "composite_of64 ?st = Inr (Num c)"
      using l(2) lo(2) ws tw by (simp add: composite_of64_sums)
    with l h lo(1) hi(1) show ?thesis by auto
  qed
  from sc sums empty finite between exact show ?thesis unfolding ps_def by blast
qed

theorem composite_is_rounded_weighted_mean_witness:
  "distinct (map fst (models (init rounding_world)))
   \<and> list_all (\<lambda>m. 0 < snd m) (weights (init rounding_world))
   \<and> total_weight64 (run_models64 (init rounding_world) rounding_world ''1'')
        = Num (3152519739159347 / 4503599627370496)
   \<and> composite_of64 (run_models64 (init rounding_world) rounding_world ''1'')
        = Inr (Num (7205759403792793 / 9007199254740992))
   \<and> (0::real) \<le> 7205759403792793 / 9007199254740992
   \<and> (7205759403792793 / 9007199254740992 :: real) \<le> 1"
proof -
  let ?st = "run_models64 (init rounding_world) rounding_world ''1''"
  have d: "distinct (map fst (models (init rounding_world)))"
    by (simp add: registry_defs scenario_def rounding_world_def)
  have p: "\<forall>m \<in> set (weights (init rounding_world)). 0 < snd m"
    by (simp add: init_config init_weights_def)
  have tw: "total_weight64 ?st = Num (3152519739159347 / 4503599627370496)"
    by (simp add: rounding_world_state)
  then have fin: "total_weight64 ?st \<noteq> PosInf" by simp
  from composite_is_rounded_weighted_mean[OF d p, of rounding_world "''1''"] fin
  obtain c where c: "composite_of64 ?st = Inr (Num c)" "0 \<le> c" "c \<le> 1" by blast
  from c(1) rounding_world_composite have "c = 7205759403792793 / 9007199254740992" by simp
  with c d p tw rounding_world_composite show ?thesis by (simp add: list_all_iff)
qed

subsection \<open>Top risk factors\<close>

lemma collect_risk_factors_spec:
  "collect_risk_factors e mr = Inr fs \<Longrightarrow>
     map (\<lambda>f. (model f, Some (factor_score f))) fs =
       map (\<lambda>m. (fst m, score (snd m)))
         (filter (\<lambda>m. status (snd m) = ''success'' \<and>
                       (case score (snd m) of None \<Rightarrow> False | Some s \<Rightarrow> s > 5/10)) mr)
     \<and> (\<forall>f\<in>set fs. map_of (weights e) (model f) = Some (factor_weight f))
     \<and> (\<forall>f\<in>set fs. 5/10 < factor_score f)"
proof (induction mr arbitrary: fs)
  case Nil
  then show ?case by auto
next
  case (Cons m mr)
  obtain n oc where m: "m = (n, oc)" by (cases m)
  show ?case using Cons.prems Cons.IH unfolding m
    by (auto simp: getitem_def split: if_splits option.splits sum.splits)
qed

lemma sort_by_impact_sorted: "sorted_wrt (\<lambda>a b. impact a \<ge> impact b) (sort_by_impact fs)"
proof -
  have "sorted (map (\<lambda>x. - impact x) (sort_by_impact fs))"
    unfolding sort_by_impact_def by (rule sorted_sort_key)
  then show ?thesis by (simp add: sorted_map)
qed

lemma sort_by_impact_stable:
  "filter (\<lambda>f. impact f = k) (sort_by_impact fs) = filter (\<lambda>f. impact f = k) fs"
proof -
  have "filter (\<lambda>f. - impact f = - k) (sort_by_impact fs) = filter (\<lambda>f. - impact f = - k) fs"
    unfolding sort_by_impact_def by (rule sort_key_stable)
  then show ?thesis by simp
qed

lemma round64_not_nan: "round64 x \<noteq> NaN"
  by (simp add: round64_def)

lemma round64_score:
  assumes "1/2 < s" "s \<le> 1"
  shows "\<exists>a. round64 s = Num a \<and> a \<noteq> 0"
proof -
  from round64_unit[of s] assms obtain a where a: "round64 s = Num a" "0 \<le> a" by auto
  have "ext (round64 (1/2)) \<le> ext (round64 s)"
    by (rule ext_round64_mono) (use assms in auto)
  then have "1/2 \<le> a" by (simp add: float_0_5 a(1) ext_def)
  with a show ?thesis by auto
qed

lemma product_not_nan:
  assumes "a \<noteq> 0"
  shows "fmul (Num a) (round64 wt) \<noteq> NaN"
proof (cases "round64 wt")
  case (Num b)
  then show ?thesis by (simp add: round64_not_nan)
next
  case PosInf
  then show ?thesis using assms by (simp add: signed_inf_def)
next
  case NegInf
  then show ?thesis using assms by (simp add: signed_inf_def)
next
  case NaN
  then show ?thesis using round64_not_nan[of wt] by simp
qed

text \<open>
  C7. The top risk factors are the first three of a list that holds exactly the
  outcomes with status success and a score above 0.5, each with its model's weight,
  ordered by score times weight, largest first; the sort is stable, so factors with
  the same product keep their registration order. The product is the one the code
  compares, the binary64 product of the two floats, and for a score of at most 1 it
  is not a nan.
\<close>

theorem top_risk_factors_ranked:
  assumes "assess_overall_risk e c mr = Inr ra"
  shows "\<exists>fs.
      map (\<lambda>f. (model f, Some (factor_score f))) fs =
        map (\<lambda>m. (fst m, score (snd m)))
          (filter (\<lambda>m. status (snd m) = ''success'' \<and>
                        (case score (snd m) of None \<Rightarrow> False | Some s \<Rightarrow> s > 5/10)) mr)
    \<and> (\<forall>f\<in>set fs. map_of (weights e) (model f) = Some (factor_weight f))
    \<and> top_risk_factors ra = take 3 (sort_by_impact fs)
    \<and> length (top_risk_factors ra) \<le> 3
    \<and> mset (sort_by_impact fs) = mset fs
    \<and> sorted_wrt (\<lambda>a b. impact a \<ge> impact b) (sort_by_impact fs)
    \<and> (\<forall>k. filter (\<lambda>f. impact f = k) (sort_by_impact fs) = filter (\<lambda>f. impact f = k) fs)
    \<and> (\<forall>f\<in>set fs.
          impact f = ext (fmul (round64 (factor_score f)) (round64 (factor_weight f)))
        \<and> (factor_score f \<le> 1 \<longrightarrow>
             fmul (round64 (factor_score f)) (round64 (factor_weight f)) \<noteq> NaN))"
proof -
  from assms obtain fs where fs: "collect_risk_factors e mr = Inr fs"
    and top: "top_risk_factors ra = take 3 (sort_by_impact fs)"
    by (auto simp: assess_overall_risk_def split: sum.splits)
  note spec = collect_risk_factors_spec[OF fs]
  have m: "mset (sort_by_impact fs) = mset fs" by (simp add: sort_by_impact_def)
  have l: "length (top_risk_factors ra) \<le> 3" using top by simp
  have n: "fmul (round64 (factor_score f)) (round64 (factor_weight f)) \<noteq> NaN"
    if "f \<in> set fs" "factor_score f \<le> 1" for f
  proof -
    from spec that(1) have "1/2 < factor_score f" by auto
    from round64_score[OF this that(2)] obtain a where "round64 (factor_score f) = Num a" "a \<noteq> 0"
      by blast
    then show ?thesis using product_not_nan[of a "factor_weight f"] by simp
  qed
  have i: "\<forall>f\<in>set fs.
          impact f = ext (fmul (round64 (factor_score f)) (round64 (factor_weight f)))
        \<and> (factor_score f \<le> 1 \<longrightarrow>
             fmul (round64 (factor_score f)) (round64 (factor_weight f)) \<noteq> NaN)"
    using n by (simp add: impact_def)
  from spec top l m i sort_by_impact_sorted[of fs] sort_by_impact_stable[of _ fs]
  show ?thesis by blast
qed

theorem top_risk_factors_ranked_witness:
  "assess_overall_risk (init nothing_installed) (5/10) tie_results =
     Inr \<lparr>risk_level = ''MODERATE'',
          risk_description = ''Moderate risk with some concerning indicators'',
          top_risk_factors =
            [\<lparr>model = ''engagement_mismatch'', factor_score = 15/16, factor_weight = 1\<rparr>,
             \<lparr>model = ''clickbait'', factor_score = 3/4, factor_weight = 8/10\<rparr>,
             \<lparr>model = ''reply_bait'', factor_score = 3/4, factor_weight = 8/10\<rparr>],
          assessed_score = 5/10\<rparr>
   \<and> impact \<lparr>model = ''hyperbole_falsehood'', factor_score = 1, factor_weight = 6/10\<rparr>
       < impact \<lparr>model = ''clickbait'', factor_score = 3/4, factor_weight = 8/10\<rparr>
   \<and> (1 * (6/10) :: real) = 3/4 * (8/10)"
proof -
  let ?ra = "\<lparr>risk_level = ''MODERATE'',
          risk_description = ''Moderate risk with some concerning indicators'',
          top_risk_factors =
            [\<lparr>model = ''engagement_mismatch'', factor_score = 15/16, factor_weight = 1\<rparr>,
             \<lparr>model = ''clickbait'', factor_score = 3/4, factor_weight = 8/10\<rparr>,
             \<lparr>model = ''reply_bait'', factor_score = 3/4, factor_weight = 8/10\<rparr>],
          assessed_score = 5/10\<rparr>"
  have h: "assess_overall_risk (init nothing_installed) (5/10) tie_results = Inr ?ra"
    by (simp add: assess_overall_risk_def tie_results_def init_config init_weights_def
        getitem_def classify_def sort_by_impact_def impact_1_0_6 impact_0_75_0_8
        impact_15_16_1)
  from top_risk_factors_ranked[OF h] have "length (top_risk_factors ?ra) \<le> 3" by blast
  with h show ?thesis by (simp add: impact_1_0_6 impact_0_75_0_8)
qed

subsection \<open>A score out of range\<close>

text \<open>
  C1, as the claim states it, fails: a scorer that exits with status 0 and prints 1.5
  is not recorded as \<open>invalid_score\<close> with a null score. The value is replaced by
  0.0 before the outcome is recorded, so the outcome is a success with score 0.0 and
  the model's weight enters the denominator: with a second model at 1.0 the composite
  is 0.6 / 1.4 and not 1.
\<close>

theorem out_of_range_counted_as_success:
  "run_script out_of_range_world ''../Clickbait_Headline_Classifier'' ''1''
      = Completed 0 (Float (Finite (15/10)))
   \<and> analyze_tweet_comprehensive (init out_of_range_world) out_of_range_world ''1''
      = Inr two_model_report
   \<and> map_of (model_results two_model_report) ''clickbait'' =
        Some \<lparr>score = Some 0,
              full_result = Some [(''clickbait_score'', PyFloat (Finite 0))],
              status = ''success'', error = None\<rparr>
   \<and> ''invalid_score'' \<notin> set (map (status \<circ> snd) (model_results two_model_report))
   \<and> map_of (weighted_breakdown two_model_report) ''clickbait'' =
        Some \<lparr>raw_score = 0, weight = 8/10, weighted_contribution = 0\<rparr>
   \<and> composite_score two_model_report = (1 * (6/10) + 0 * (8/10)) / (6/10 + 8/10)
   \<and> composite_score two_model_report \<noteq> 1"
  using out_of_range_result
  by (simp add: out_of_range_world_def scenario_def) (simp add: two_model_report_def)

text \<open>
  C1, amended. When a loaded model with a complete configuration is run, its scorer
  exits with status 0 and its output parses to a float outside the unit interval, the
  loop records an outcome with status success and score 0.0, adds the model's weight
  to the total weight and nothing to the weighted sum, and enters the model in the
  weighted breakdown with raw score 0 and contribution 0.
\<close>

theorem out_of_range_scored_zero:
  assumes "map_of (analysis_methods e) n = Some ''simple_score''"
    and "map_of (score_keys e) n = Some key"
    and "map_of (model_paths e) n = Some path"
    and "map_of (weights e) n = Some wt"
    and "script_exists w path"
    and "run_script w path t = Completed 0 (Float f)"
    and "\<not> in_unit f"
  shows "analyze_model e w t st (n, True) =
     st\<lparr>rs_model_results := setitem (rs_model_results st) n
           \<lparr>score = Some 0, full_result = Some [(key, PyFloat (Finite 0))],
            status = ''success'', error = None\<rparr>,
        weighted_sum := weighted_sum st + 0,
        total_weight := total_weight st + wt,
        rs_weighted_breakdown := setitem (rs_weighted_breakdown st) n
           \<lparr>raw_score = 0, weight = wt, weighted_contribution = 0\<rparr>\<rparr>"
proof -
  have "get_model_result e w t n ''simple_score'' = Inr [(key, PyFloat (Finite 0))]"
    using assms by (simp add: get_model_result_def getitem_def score_of_process_def)
  from analyze_model_scored[OF assms(1,2,4) this] show ?thesis by simp
qed

theorem out_of_range_scored_zero_witness:
  "run_script out_of_range_world ''../Clickbait_Headline_Classifier'' ''1''
      = Completed 0 (Float (Finite (15/10)))
   \<and> \<not> in_unit (Finite (15/10))
   \<and> analyze_model (init out_of_range_world) out_of_range_world ''1'' empty_state
        (''clickbait'', True) =
      \<lparr>rs_model_results =
         [(''clickbait'',
           \<lparr>score = Some 0, full_result = Some [(''clickbait_score'', PyFloat (Finite 0))],
            status = ''success'', error = None\<rparr>)],
       rs_weighted_breakdown =
         [(''clickbait'', \<lparr>raw_score = 0, weight = 8/10, weighted_contribution = 0\<rparr>)],
       total_weight = 8/10, weighted_sum = 0\<rparr>"
proof -
  have r: "run_script out_of_range_world ''../Clickbait_Headline_Classifier'' ''1''
      = Completed 0 (Float (Finite (15/10)))"
    by (simp add: out_of_range_world_def scenario_def)
  have u: "\<not> in_unit (Finite (15/10))" by simp
  have step: "analyze_model (init out_of_range_world) out_of_range_world ''1'' empty_state
        (''clickbait'', True) =
     empty_state\<lparr>rs_model_results := setitem (rs_model_results empty_state) ''clickbait''
           \<lparr>score = Some 0, full_result = Some [(''clickbait_score'', PyFloat (Finite 0))],
            status = ''success'', error = None\<rparr>,
        weighted_sum := weighted_sum empty_state + 0,
        total_weight := total_weight empty_state + 8/10,
        rs_weighted_breakdown := setitem (rs_weighted_breakdown empty_state) ''clickbait''
           \<lparr>raw_score = 0, weight = 8/10, weighted_contribution = 0\<rparr>\<rparr>"
    by (rule out_of_range_scored_zero[where path = "''../Clickbait_Headline_Classifier''"
          and f = "Finite (15/10)"])
      (simp_all add: init_config init_weights_def init_model_paths_def init_score_keys_def
        init_analysis_methods_def out_of_range_world_def scenario_def)
  show ?thesis
    unfolding step using r u by (simp add: empty_state_def setitem_def)
qed

subsection \<open>A scorer that runs into the timeout\<close>

text \<open>
  C5, as the claim states it, fails: a scorer that exceeds the timeout is not recorded
  with status \<open>timeout\<close>. The handler of \<open>TimeoutExpired\<close> puts 0.0 in its place,
  so the outcome is a success with score 0.0 that carries the model's weight.
\<close>

theorem timeout_counted_as_success:
  "run_script timeout_world ''../Clickbait_Headline_Classifier'' ''1'' = TimeoutExpired
   \<and> analyze_tweet_comprehensive (init timeout_world) timeout_world ''1'' = Inr two_model_report
   \<and> map_of (model_results two_model_report) ''clickbait'' =
        Some \<lparr>score = Some 0,
              full_result = Some [(''clickbait_score'', PyFloat (Finite 0))],
              status = ''success'', error = None\<rparr>
   \<and> ''timeout'' \<notin> set (map (status \<circ> snd) (model_results two_model_report))
   \<and> map_of (weighted_breakdown two_model_report) ''clickbait'' =
        Some \<lparr>raw_score = 0, weight = 8/10, weighted_contribution = 0\<rparr>"
  using timeout_result
  by (simp add: timeout_world_def scenario_def) (simp add: two_model_report_def)

text \<open>
  C5, amended. When the run of a loaded model with a complete configuration raises
  \<open>TimeoutExpired\<close>, the loop records an outcome with status success and score 0.0
  and adds the model's weight to the total weight; and whatever the scorers do, the
  loop ends and every status it has recorded is one of success, invalid_score,
  score_not_found and error.
\<close>

theorem timeout_scored_zero:
  assumes "map_of (analysis_methods e) n = Some ''simple_score''"
    and "map_of (score_keys e) n = Some key"
    and "map_of (model_paths e) n = Some path"
    and "map_of (weights e) n = Some wt"
    and "script_exists w path"
    and "run_script w path t = TimeoutExpired"
  shows "analyze_model e w t st (n, True) =
     st\<lparr>rs_model_results := setitem (rs_model_results st) n
           \<lparr>score = Some 0, full_result = Some [(key, PyFloat (Finite 0))],
            status = ''success'', error = None\<rparr>,
        weighted_sum := weighted_sum st + 0,
        total_weight := total_weight st + wt,
        rs_weighted_breakdown := setitem (rs_weighted_breakdown st) n
           \<lparr>raw_score = 0, weight = wt, weighted_contribution = 0\<rparr>\<rparr>
    \<and> (\<forall>m \<in> set (rs_model_results (run_models e w t)).
          status (snd m) \<in> {''success'', ''invalid_score'', ''score_not_found'', ''error''})"
proof -
  have "get_model_result e w t n ''simple_score'' = Inr [(key, PyFloat (Finite 0))]"
    using assms by (simp add: get_model_result_def getitem_def score_of_process_def)
  from analyze_model_scored[OF assms(1,2,4) this] 
  have "analyze_model e w t st (n, True) =
     st\<lparr>rs_model_results := setitem (rs_model_results st) n
           \<lparr>score = Some 0, full_result = Some [(key, PyFloat (Finite 0))],
            status = ''success'', error = None\<rparr>,
        weighted_sum := weighted_sum st + 0,
        total_weight := total_weight st + wt,
        rs_weighted_breakdown := setitem (rs_weighted_breakdown st) n
           \<lparr>raw_score = 0, weight = wt, weighted_contribution = 0\<rparr>\<rparr>" by simp
  moreover have "\<forall>m \<in> set (rs_model_results (run_models e w t)).
          status (snd m) \<in> {''success'', ''invalid_score'', ''score_not_found'', ''error''}"
    using run_models_statuses[of e w t] by (simp add: list_all_iff known_status_def)
  ultimately show ?thesis by blast
qed

theorem timeout_scored_zero_witness:
  "run_script timeout_world ''../Clickbait_Headline_Classifier'' ''1'' = TimeoutExpired
   \<and> analyze_model (init timeout_world) timeout_world ''1'' empty_state (''clickbait'', True) =
      \<lparr>rs_model_results =
         [(''clickbait'',
           \<lparr>score = Some 0, full_result = Some [(''clickbait_score'', PyFloat (Finite 0))],
            status = ''success'', error = None\<rparr>)],
       rs_weighted_breakdown =
         [(''clickbait'', \<lparr>raw_score = 0, weight = 8/10, weighted_contribution = 0\<rparr>)],
       total_weight = 8/10, weighted_sum = 0\<rparr>"
proof -
  have r: "run_script timeout_world ''../Clickbait_Headline_Classifier'' ''1'' = TimeoutExpired"
    by (simp add: timeout_world_def scenario_def)
  have step: "analyze_model (init timeout_world) timeout_world ''1'' empty_state
        (''clickbait'', True) =
     empty_state\<lparr>rs_model_results := setitem (rs_model_results empty_state) ''clickbait''
           \<lparr>score = Some 0, full_result = Some [(''clickbait_score'', PyFloat (Finite 0))],
            status = ''success'', error = None\<rparr>,
        weighted_sum := weighted_sum empty_state + 0,
        total_weight := total_weight empty_state + 8/10,
        rs_weighted_breakdown := setitem (rs_weighted_breakdown empty_state) ''clickbait''
           \<lparr>raw_score = 0, weight = 8/10, weighted_contribution = 0\<rparr>\<rparr>"
    using timeout_scored_zero[where e = "init timeout_world" and w = timeout_world
          and n = "''clickbait''" and t = "''1''" and st = empty_state
          and key = "''clickbait_score''" and wt = "8/10"
          and path = "''../Clickbait_Headline_Classifier''"]
    by (simp add: init_config init_weights_def init_model_paths_def init_score_keys_def
        init_analysis_methods_def timeout_world_def scenario_def)
  show ?thesis
    unfolding step using r by (simp add: empty_state_def setitem_def)
qed

subsection \<open>A run in which every scorer fails\<close>




subsection \<open>Three successful models\<close>

text \<open>
  C8, as the claim states it, fails: with scores 0.8, 0.6, 0.4 and weights 1.0, 0.6,
  0.6 the weighted sum is 0.8 + 0.36 + 0.24 = 1.4, not 1.04, so the composite score is
  1.4 / 2.2 = 7/11 and the level is HIGH, not MODERATE.
\<close>

theorem three_models_not_moderate:
  "analyze_tweet_comprehensive (init scenario_1) scenario_1 ''1'' = Inr scenario_1_report
   \<and> map (score \<circ> snd) (model_results scenario_1_report) = [Some (8/10), Some (6/10), Some (4/10)]
   \<and> map (status \<circ> snd) (model_results scenario_1_report) = [''success'', ''success'', ''success'']
   \<and> map (weight \<circ> snd) (weighted_breakdown scenario_1_report) = [1, 6/10, 6/10]
   \<and> composite_score scenario_1_report = 14/22
   \<and> composite_score scenario_1_report \<noteq> 104/220
   \<and> risk_level (risk_assessment scenario_1_report) = ''HIGH''
   \<and> risk_level (risk_assessment scenario_1_report) \<noteq> ''MODERATE''"
  using scenario_1_result by (simp add: scenario_1_report_def)

text \<open>
  C8, amended. When exactly the three models with weights 1.0, 0.6 and 0.6 are loaded
  and succeed with scores 0.8, 0.6 and 0.4, the composite score is
  (0.8 * 1.0 + 0.6 * 0.6 + 0.4 * 0.6) / (1.0 + 0.6 + 0.6) = 1.4 / 2.2 = 7/11, about
  0.636, and the risk level is HIGH.
\<close>

theorem three_model_composite:
  assumes "\<forall>p. (dir_exists w0 p \<and> script_exists w0 p) =
             (p \<in> {''../Coordinated_Account_Network_Model'', ''../Emotive_Manipulation_Detector'',
                    ''../Generic_Comment_Detector''})"
    and "script_exists w ''../Coordinated_Account_Network_Model''"
    and "script_exists w ''../Emotive_Manipulation_Detector''"
    and "script_exists w ''../Generic_Comment_Detector''"
    and "run_script w ''../Coordinated_Account_Network_Model'' t = Completed 0 (Float (Finite (8/10)))"
    and "run_script w ''../Emotive_Manipulation_Detector'' t = Completed 0 (Float (Finite (6/10)))"
    and "run_script w ''../Generic_Comment_Detector'' t = Completed 0 (Float (Finite (4/10)))"
  shows "\<exists>r. analyze_tweet_comprehensive (init w0) w t = Inr r
     \<and> map (\<lambda>m. (fst m, status (snd m), score (snd m))) (model_results r) =
         [(''coordinated_network'', ''success'', Some (8/10)),
          (''emotive_manipulation'', ''success'', Some (6/10)),
          (''generic_comment'', ''success'', Some (4/10))]
     \<and> map (\<lambda>m. (fst m, weight (snd m))) (weighted_breakdown r) =
         [(''coordinated_network'', 1), (''emotive_manipulation'', 6/10), (''generic_comment'', 6/10)]
     \<and> composite_score r = (8/10 * 1 + 6/10 * (6/10) + 4/10 * (6/10)) / (1 + 6/10 + 6/10)
     \<and> composite_score r = 14/22
     \<and> risk_level (risk_assessment r) = ''HIGH''"
proof -
  have ms: "models (init w0) =
   [(''hyperbole_falsehood'', False), (''clickbait'', False), (''engagement_mismatch'', False),
    (''content_recycling'', False), (''coordinated_network'', True),
    (''emotive_manipulation'', True), (''rapid_engagement_spike'', False),
    (''generic_comment'', True), (''authority_signal'', False), (''reply_bait'', False)]"
    using assms(1) by (simp add: registry_defs)
  have st: "run_models (init w0) w t =
   \<lparr>rs_model_results = model_results scenario_1_report,
    rs_weighted_breakdown = weighted_breakdown scenario_1_report,
    total_weight = 22/10, weighted_sum = 14/10\<rparr>"
    unfolding run_models_def ms using assms(2-)
    by (simp add: init_config analyze_model_def get_model_result_def record_outcome_def
        getitem_def score_of_process_def valid_score_def empty_state_def setitem_def
        scenario_1_report_def
        init_weights_def init_model_paths_def init_analysis_methods_def init_score_keys_def)
  show ?thesis
    unfolding analyze_tweet_comprehensive_def st
    by (simp add: composite_of_def assess_overall_risk_def classify_def scenario_1_report_def
        init_config init_weights_def getitem_def Let_def)
qed

theorem three_model_composite_witness:
  "analyze_tweet_comprehensive (init scenario_1) scenario_1 ''1'' = Inr scenario_1_report
   \<and> composite_score scenario_1_report = 14/22
   \<and> risk_level (risk_assessment scenario_1_report) = ''HIGH''"
proof -
  have a: "\<forall>p. (dir_exists scenario_1 p \<and> script_exists scenario_1 p) =
             (p \<in> {''../Coordinated_Account_Network_Model'', ''../Emotive_Manipulation_Detector'',
                    ''../Generic_Comment_Detector''})"
    by (simp add: scenario_1_def scenario_def)
  have b: "script_exists scenario_1 ''../Coordinated_Account_Network_Model''"
    "script_exists scenario_1 ''../Emotive_Manipulation_Detector''"
    "script_exists scenario_1 ''../Generic_Comment_Detector''"
    by (simp_all add: scenario_1_def scenario_def)
  have c: "run_script scenario_1 ''../Coordinated_Account_Network_Model'' ''1''
             = Completed 0 (Float (Finite (8/10)))"
    "run_script scenario_1 ''../Emotive_Manipulation_Detector'' ''1''
             = Completed 0 (Float (Finite (6/10)))"
    "run_script scenario_1 ''../Generic_Comment_Detector'' ''1''
             = Completed 0 (Float (Finite (4/10)))"
    by (simp_all add: scenario_1_def scenario_def)
  have "\<exists>r. analyze_tweet_comprehensive (init scenario_1) scenario_1 ''1'' = Inr r
     \<and> composite_score r = 14/22 \<and> risk_level (risk_assessment r) = ''HIGH''"
    using three_model_composite[OF a b c] by blast
  then obtain r where r: "analyze_tweet_comprehensive (init scenario_1) scenario_1 ''1'' = Inr r"
    and z: "composite_score r = 14/22" "risk_level (risk_assessment r) = ''HIGH''"
    by blast
  from r scenario_1_result have "r = scenario_1_report" by simp
  with z scenario_1_result show ?thesis by simp
qed

subsection \<open>Risk levels\<close>




subsection \<open>The summary\<close>



end
